theory Spec2Isabelle
  imports Main "HOL-Library.Sublist"
begin

section \<open>Macro Cleaner: a shallow embedding of \<open>Core.py\<close>\<close>

text \<open>
  The development follows \<open>Core.py\<close>: the path arithmetic of \<open>pathlib\<close> that
  \<open>clean_vba_macro\<close> uses, the manifest sanitizer \<open>_clean_content_types\<close>, the macro
  extractor \<open>_extract_vba_code\<close> with \<open>_extract_vba_from_parser\<close>, the report store
  \<open>_save_report\<close>, the repacker \<open>_repack_docx\<close> and the pipeline \<open>clean_vba_macro\<close>.

  Python names that start with an underscore lose it (\<open>_save_report\<close> is \<open>save_report\<close>).
  Everything the code obtains from a library whose result the code cannot compute itself
  (the zip codec, the macro parser of oletools, the MD5 digest, the text codec, the report
  renderer, and every failure of an operation that writes) is a field of the record
  \<open>env\<close>; the theorems hold for every value of that record.
\<close>

subsection \<open>Paths\<close>

text \<open>
  A path is the string of an absolute, resolved POSIX path (\<open>Path(file_path).resolve()\<close>
  has been applied). \<open>name_of\<close>, \<open>suffix_of\<close>, \<open>stem_of\<close> and \<open>parent_prefix\<close> are
  \<open>Path.name\<close>, \<open>Path.suffix\<close>, \<open>Path.stem\<close> and the text that \<open>Path.parent / x\<close> puts
  before \<open>x\<close>. \<open>pathlib\<close> takes the suffix from the last dot of the name, unless that dot
  is the first or the last character of the name.
\<close>

type_synonym path = string
type_synonym bytes = string

definition name_of :: "path \<Rightarrow> string" where
  "name_of p = rev (takeWhile (\<lambda>c. c \<noteq> CHR ''/'') (rev p))"

definition parent_prefix :: "path \<Rightarrow> string" where
  "parent_prefix p = rev (dropWhile (\<lambda>c. c \<noteq> CHR ''/'') (rev p))"

definition suffix_of :: "path \<Rightarrow> string" where
  "suffix_of p =
     (let n = name_of p; e = rev (takeWhile (\<lambda>c. c \<noteq> CHR ''.'') (rev n))
      in if CHR ''.'' \<in> set n \<and> e \<noteq> [] \<and> length e + 1 < length n then CHR ''.'' # e else [])"

definition stem_of :: "path \<Rightarrow> string" where
  "stem_of p = (let n = name_of p in take (length n - length (suffix_of p)) n)"

text \<open>
  \<open>str.lower()\<close> on the letters A to Z. Python also lowers letters outside ASCII; no such
  letter is lowered to a letter that occurs in the two extension lists below, so
  membership of the lowered suffix in these lists is the same.
\<close>

definition lower_char :: "char \<Rightarrow> char" where
  "lower_char c =
     (case map_of (zip ''ABCDEFGHIJKLMNOPQRSTUVWXYZ'' ''abcdefghijklmnopqrstuvwxyz'') c of
        Some l \<Rightarrow> l
      | None \<Rightarrow> c)"

definition lower :: "string \<Rightarrow> string" where
  "lower s = map lower_char s"

definition SUPPORTED_EXTS :: "string list" where
  "SUPPORTED_EXTS = [''.docm'', ''.dotm'', ''.xlsm'', ''.xltm'', ''.pptm'', ''.potm'']"

definition NO_MACRO_EXTS :: "string list" where
  "NO_MACRO_EXTS =
     [''.xlsx'', ''.xlsb'', ''.xltx'', ''.xls'',
      ''.docx'', ''.dotx'', ''.doc'',
      ''.pptx'', ''.potx'', ''.ppsx'', ''.ppt'',
      ''.odt'', ''.ods'', ''.odp'', ''.rtf'', ''.pdf'', ''.txt'', ''.csv'', ''.xml'']"

definition backup_path_of :: "path \<Rightarrow> path" where
  "backup_path_of p = parent_prefix p @ stem_of p @ ''_backup'' @ suffix_of p"

definition path_join :: "path \<Rightarrow> string \<Rightarrow> path" where
  "path_join d n = (if d = ''/'' then d @ n else d @ ''/'' @ n)"

subsection \<open>The manifest sanitizer\<close>

text \<open>
  The manifest is read as text: a list of Unicode code points. \<open>utext\<close> turns an ASCII
  literal into such a text. \<open>is_space\<close> is the class \<open>\s\<close> of \<open>re\<close> on \<open>str\<close>.

  Each of the four patterns is a literal followed by \<open>.*?/>\<close> under \<open>re.DOTALL\<close>: a match
  starts where the literal occurs and ends after the first \<open>/>\<close> behind the literal.
  \<open>re.sub\<close> scans from the left, deletes a match and goes on behind it; where the
  literal occurs with no \<open>/>\<close> behind it there is no match and the scan moves one
  character on. \<open>find_close\<close> returns the text behind the first \<open>/>\<close>.
\<close>

type_synonym ustring = "nat list"

definition utext :: "string \<Rightarrow> ustring" where
  "utext s = map of_char s"

definition is_space :: "nat \<Rightarrow> bool" where
  "is_space n \<longleftrightarrow>
     (9 \<le> n \<and> n \<le> 13) \<or> (28 \<le> n \<and> n \<le> 32) \<or> n = 133 \<or> n = 160 \<or> n = 5760
     \<or> (8192 \<le> n \<and> n \<le> 8202) \<or> n = 8232 \<or> n = 8233 \<or> n = 8239 \<or> n = 8287 \<or> n = 12288"

fun find_close :: "ustring \<Rightarrow> ustring option" where
  "find_close (a # b # cs) = (if a = 47 \<and> b = 62 then Some cs else find_close (b # cs))"
| "find_close _ = None"

lemma find_close_shorter: "find_close s = Some r \<Longrightarrow> length r < length s"
  by (induction s arbitrary: r rule: find_close.induct) (auto split: if_splits)

function remove_tag :: "ustring \<Rightarrow> ustring \<Rightarrow> ustring" where
  "remove_tag L [] = []"
| "remove_tag L (c # cs) =
     (if prefix L (c # cs)
      then (case find_close (drop (length L) (c # cs)) of
              Some rest \<Rightarrow> remove_tag L rest
            | None \<Rightarrow> c # remove_tag L cs)
      else c # remove_tag L cs)"
  by pat_completeness auto
termination
  by (relation "measure (\<lambda>(L, s). length s)") (auto dest!: find_close_shorter)

text \<open>
  \<open>re.sub(r'\n\s*\n', '\n', content)\<close>: at a newline, \<open>\s*\<close> takes the whole run of white
  space behind it and gives characters back until the run ends in a newline; the match
  is replaced by one newline and the scan goes on behind the match.
\<close>

definition after_last_nl :: "ustring \<Rightarrow> ustring" where
  "after_last_nl run = rev (takeWhile (\<lambda>c. c \<noteq> 10) (rev run))"

lemma after_last_nl_length: "length (after_last_nl r) \<le> length r"
  unfolding after_last_nl_def using length_takeWhile_le [of _ "rev r"] by simp

function collapse_blank :: "ustring \<Rightarrow> ustring" where
  "collapse_blank [] = []"
| "collapse_blank (c # cs) =
     (if c = 10 \<and> 10 \<in> set (takeWhile is_space cs)
      then 10 # collapse_blank (after_last_nl (takeWhile is_space cs) @ dropWhile is_space cs)
      else c # collapse_blank cs)"
  by pat_completeness auto
termination
proof (relation "measure length", goal_cases)
  case 1
  show ?case by simp
next
  case (2 c cs)
  have "length (after_last_nl (takeWhile is_space cs)) + length (dropWhile is_space cs)
        \<le> length (takeWhile is_space cs) + length (dropWhile is_space cs)"
    using after_last_nl_length by simp
  also have "\<dots> = length cs"
    by (metis length_append takeWhile_dropWhile_id)
  finally show ?case by simp
next
  case 3
  show ?case by simp
qed

definition patterns :: "ustring list" where
  "patterns =
     [utext ''<Override PartName=\"/word/vbaProject.bin\"'',
      utext ''<Override PartName=\"/xl/vbaProject.bin\"'',
      utext ''<Override PartName=\"/ppt/vbaProject.bin\"'',
      utext ''<Default Extension=\"bin\"'']"

definition strip_declarations :: "ustring \<Rightarrow> ustring" where
  "strip_declarations content = foldl (\<lambda>c p. remove_tag p c) content patterns"

definition sanitize :: "ustring \<Rightarrow> ustring" where
  "sanitize content = collapse_blank (strip_declarations content)"

text \<open>
  \<open>has_match L s\<close>: the pattern with literal \<open>L\<close> matches somewhere in \<open>s\<close>.
\<close>

fun has_match :: "ustring \<Rightarrow> ustring \<Rightarrow> bool" where
  "has_match L [] = False"
| "has_match L (c # cs) =
     ((prefix L (c # cs) \<and> find_close (drop (length L) (c # cs)) \<noteq> None) \<or> has_match L cs)"

text \<open>
  \<open>no_blank s\<close>: the pattern \<open>\n\s*\n\<close> matches nowhere in \<open>s\<close>.
\<close>

fun no_blank :: "ustring \<Rightarrow> bool" where
  "no_blank [] = True"
| "no_blank (c # cs) = (\<not> (c = 10 \<and> 10 \<in> set (takeWhile is_space cs)) \<and> no_blank cs)"

subsection \<open>The macro extractor\<close>

text \<open>
  The parser object of \<open>oletools.olevba\<close> as the code sees it. A code body is a \<open>str\<close>, a
  \<open>bytes\<close> or \<open>None\<close>; \<open>bytes\<close> are decoded as Latin-1, which maps every byte to the code
  point of the same value, so both carry a \<open>string\<close>. \<open>detect\<close> and \<open>all_modules\<close> are
  \<open>None\<close> when the object has no such attribute (\<open>hasattr\<close> is false).
\<close>

datatype code = CNone | CStr string | CBytes string

record vba_module =
  code_str :: code
  code_attr :: code

record vba_parser =
  detect :: "bool option"                  \<comment> \<open>\<open>detect_vba_macros()\<close>: \<open>Some True\<close> when it raises\<close>
  macros :: "string + code list"           \<comment> \<open>\<open>extract_macros()\<close>: raises, or the \<open>vba_code\<close> of each tuple\<close>
  all_modules :: "(string + code) option"  \<comment> \<open>\<open>get_vba_code_all_modules()\<close>\<close>
  vba_projects :: "vba_module list list"   \<comment> \<open>the \<open>modules\<close> of each project\<close>

definition truthy :: "code \<Rightarrow> bool" where
  "truthy c = (case c of CNone \<Rightarrow> False | CStr s \<Rightarrow> s \<noteq> [] | CBytes b \<Rightarrow> b \<noteq> [])"

definition code_text :: "code \<Rightarrow> string" where
  "code_text c = (case c of CNone \<Rightarrow> [] | CStr s \<Rightarrow> s | CBytes b \<Rightarrow> b)"

definition module_code :: "vba_module \<Rightarrow> code" where
  "module_code m = (if truthy (code_str m) then code_str m else code_attr m)"

definition extract_vba_from_parser :: "vba_parser \<Rightarrow> string + string list" where
  "extract_vba_from_parser parser =
     (case macros parser of
        Inl e \<Rightarrow> Inl e
      | Inr codes \<Rightarrow>
          let out1 = map code_text (filter truthy codes);
              out2 = (if out1 = [] then
                        (case all_modules parser of
                           Some (Inr all_code) \<Rightarrow> if truthy all_code then [code_text all_code] else []
                         | _ \<Rightarrow> [])
                      else out1);
              out3 = (if out2 = [] then
                        map code_text (filter truthy (map module_code (concat (vba_projects parser))))
                      else out2)
          in Inr out3)"

text \<open>
  The results of \<open>_extract_vba_code\<close>. The three placeholders are string literals of the
  source: \<open>NeedOletools\<close> when the import fails, \<open>ExtractFailed e\<close> from the outer
  \<open>except Exception as e\<close>, \<open>NoVisibleCode\<close> when nothing was collected. \<open>Source\<close>
  carries the collected bodies joined by \<open>"\n\n---\n\n"\<close>.
\<close>

datatype vba_text = NeedOletools | ExtractFailed string | NoVisibleCode | Source string

fun join_code :: "string list \<Rightarrow> string" where
  "join_code [] = []"
| "join_code [x] = x"
| "join_code (x # y # ys) = x @ [CHR 0x0A, CHR 0x0A, CHR ''-'', CHR ''-'', CHR ''-'', CHR 0x0A, CHR 0x0A] @ join_code (y # ys)"

definition VBA_BIN_PATHS :: "string list" where
  "VBA_BIN_PATHS = [''word/vbaProject.bin'', ''xl/vbaProject.bin'', ''ppt/vbaProject.bin'']"

text \<open>
  A zip archive opened for reading: its \<open>namelist()\<close> and its \<open>read(name)\<close>, which may
  raise.
\<close>

record zip_reader =
  namelist :: "string list"
  zread :: "string \<Rightarrow> string + bytes"

text \<open>
  What \<open>_extract_vba_code\<close> does, step by step, beside its result: the whole-document
  parse, opening the container, and the temporary \<open>.bin\<close> file of the fallback.
\<close>

datatype xevent =
    ParseDocument
  | OpenContainer
  | CreateTempBin
  | WriteTempBin bytes
  | ParseTempBin
  | UnlinkTempBin

record extractor_env =
  oletools :: bool                                       \<comment> \<open>the import of \<open>VBA_Parser\<close> succeeds\<close>
  VBA_Parser :: "bytes option \<Rightarrow> string + vba_parser"     \<comment> \<open>on the bytes of the file at the path\<close>
  zip_open :: "bytes \<Rightarrow> zip_reader option"                \<comment> \<open>\<open>None\<close>: \<open>zipfile.ZipFile(path, "r")\<close> raises\<close>
  mkstemp_error :: "string option"

definition fallback_events :: "bytes option \<Rightarrow> xevent list" where
  "fallback_events written =
     (case written of
        None \<Rightarrow> [ParseDocument, OpenContainer, CreateTempBin, UnlinkTempBin]
      | Some bin \<Rightarrow>
          [ParseDocument, OpenContainer, CreateTempBin, WriteTempBin bin, ParseTempBin,
           UnlinkTempBin])"

definition extract_vba_code ::
  "('a extractor_env_scheme) \<Rightarrow> (path \<rightharpoonup> bytes) \<Rightarrow> path \<Rightarrow> vba_text \<times> xevent list" where
  "extract_vba_code E fs file_path =
     (if \<not> oletools E then (NeedOletools, [])
      else
        case VBA_Parser E (fs file_path) of
          Inl e \<Rightarrow> (ExtractFailed e, [ParseDocument])
        | Inr parser \<Rightarrow>
            (case extract_vba_from_parser parser of
               Inl e \<Rightarrow> (ExtractFailed e, [ParseDocument])
             | Inr (x # xs) \<Rightarrow> (Source (join_code (x # xs)), [ParseDocument])
             | Inr [] \<Rightarrow>
                 (case fs file_path of
                    None \<Rightarrow> (NoVisibleCode, [ParseDocument])
                  | Some doc \<Rightarrow>
                      (case zip_open E doc of
                         None \<Rightarrow> (NoVisibleCode, [ParseDocument, OpenContainer])
                       | Some zf \<Rightarrow>
                           (case find (\<lambda>name. name \<in> set (namelist zf)) VBA_BIN_PATHS of
                              None \<Rightarrow> (NoVisibleCode, [ParseDocument, OpenContainer])
                            | Some vba_bin_path \<Rightarrow>
                                (case mkstemp_error E of
                                   Some e \<Rightarrow> (NoVisibleCode, [ParseDocument, OpenContainer])
                                 | None \<Rightarrow>
                                     (case zread zf vba_bin_path of
                                        Inl e \<Rightarrow> (NoVisibleCode, fallback_events None)
                                      | Inr bin \<Rightarrow>
                                          (case VBA_Parser E (Some bin) of
                                             Inl e \<Rightarrow> (NoVisibleCode, fallback_events (Some bin))
                                           | Inr parser2 \<Rightarrow>
                                               (case extract_vba_from_parser parser2 of
                                                  Inl e \<Rightarrow> (NoVisibleCode, fallback_events (Some bin))
                                                | Inr [] \<Rightarrow> (NoVisibleCode, fallback_events (Some bin))
                                                | Inr (y # ys) \<Rightarrow>
                                                    (Source (join_code (y # ys)),
                                                     fallback_events (Some bin)))))))))))"

subsection \<open>Files, reports and the environment\<close>

text \<open>
  The extracted working directory is a map from relative paths (\<open>''word/vbaProject.bin''\<close>)
  to nodes; \<open>Path.exists()\<close> is \<open>tree p \<noteq> None\<close>. It lives in a fresh directory of
  \<open>tempfile.mkdtemp\<close>, apart from the files of the user, so it is a value of its own and the
  \<open>shutil.rmtree\<close> of the \<open>finally\<close> block has nothing left to change.
\<close>

datatype node = File bytes | Dir

type_synonym tree = "path \<rightharpoonup> node"

definition regular_files :: "tree \<Rightarrow> (path \<rightharpoonup> bytes)" where
  "regular_files t = (\<lambda>p. case t p of Some (File b) \<Rightarrow> Some b | _ \<Rightarrow> None)"

text \<open>
  \<open>report_data\<close>. \<open>status\<close> and \<open>message\<close> hold the key of the text catalogue (and the
  arguments of \<open>format\<close>) instead of the text that \<open>TEXTS_ZH\<close> or \<open>TEXTS_EN\<close> gives for it.
  The three time stamps of the dictionary are left out.
\<close>

datatype status = StatusFail | StatusSuccess

datatype message =
    MsgNone
  | MsgFileNotFound
  | MsgUnsupportedFormat string
  | MsgInvalidFormat
  | MsgUnknownDocType
  | MsgNoMacroSkip
  | MsgNoMacroFormat
  | MsgSaveFailed
  | MsgMacroClearedReplace
  | MsgMacroCleared nat
  | MsgNoMacro
  | MsgException string

record report =
  r_file_name :: string
  r_file_path :: path
  r_file_size :: nat
  r_status :: status
  r_vba_found :: bool
  r_vba_size :: nat
  r_vba_code :: "vba_text option"
  r_output_path :: path
  r_message :: message
  r_original_md5 :: string
  r_output_md5 :: string
  r_is_english :: bool

text \<open>
  The state the code changes: the regular files of the user (by absolute path) and the
  module variables \<open>_report_history\<close> and \<open>_last_vba_size\<close>. Two logs are kept beside
  them: \<open>fs_log\<close>, every change made to \<open>files\<close> in the order of the changes, and
  \<open>save_log\<close>, the record of every call of \<open>_save_report\<close> as it was at that call.

  \<open>_report_history\<close> holds the dictionary \<open>report_data\<close> itself, not a copy. The one
  assignment to it after a \<open>_save_report\<close> is the message set in the \<open>except\<close> block, so the
  entry that a failed \<open>_save_report\<close> of the \<open>try\<close> block has appended shows that message
  too: \<open>restamp n rd h\<close> rewrites the entries of \<open>h\<close> from position \<open>n\<close> on, the ones
  that the current call appended.
\<close>

datatype fs_event =
    Copy2 path path bytes      \<comment> \<open>\<open>shutil.copy2(src, dst)\<close> wrote these bytes to \<open>dst\<close>\<close>
  | ZipWritten path bytes      \<comment> \<open>\<open>_repack_docx\<close> completed\<close>
  | ZipAborted path bytes      \<comment> \<open>\<open>_repack_docx\<close> raised after opening the output; the bytes it left\<close>
  | ReportWritten path bytes

record world =
  files :: "path \<rightharpoonup> bytes"
  report_history :: "report list"
  last_vba_size :: nat
  fs_log :: "fs_event list"
  save_log :: "report list"

definition restamp :: "nat \<Rightarrow> report \<Rightarrow> report list \<Rightarrow> report list" where
  "restamp n rd h = take n h @ map (\<lambda>x. rd) (drop n h)"

fun apply_event :: "(path \<rightharpoonup> bytes) \<Rightarrow> fs_event \<Rightarrow> (path \<rightharpoonup> bytes)" where
  "apply_event f (Copy2 src dst b) = f(dst \<mapsto> b)"
| "apply_event f (ZipWritten p b) = f(p \<mapsto> b)"
| "apply_event f (ZipAborted p b) = f(p \<mapsto> b)"
| "apply_event f (ReportWritten p b) = f(p \<mapsto> b)"

definition replay :: "(path \<rightharpoonup> bytes) \<Rightarrow> fs_event list \<Rightarrow> (path \<rightharpoonup> bytes)" where
  "replay f evs = foldl apply_event f evs"

definition new_events :: "world \<Rightarrow> world \<Rightarrow> fs_event list" where
  "new_events w w' = drop (length (fs_log w)) (fs_log w')"

datatype unpacked = BadZipFile | ExtractError string | Extracted tree

datatype repack_result =
    RepackOk
  | RepackOpenFails string          \<comment> \<open>\<open>mkdir\<close> or opening the output raises: nothing written\<close>
  | RepackWriteFails string bytes   \<comment> \<open>raises after \<open>ZipFile(output_path, 'w')\<close> truncated the output\<close>

record env = extractor_env +
  md5 :: "bytes \<Rightarrow> string"
  mkdtemp_error :: "string option"
  extractall :: "bytes \<Rightarrow> unpacked"            \<comment> \<open>\<open>ZipFile(input_path).extractall(extract_path)\<close>\<close>
  read_text :: "bytes \<Rightarrow> ustring option"         \<comment> \<open>\<open>None\<close>: not UTF-8\<close>
  write_text :: "ustring \<Rightarrow> bytes"
  copy2_error :: "string option"
  repack_result :: repack_result
  zip_write :: "(path \<rightharpoonup> bytes) \<Rightarrow> bytes"        \<comment> \<open>the archive written for these regular files\<close>
  render_report :: "report list \<Rightarrow> string + (string \<times> bytes)"
                                                 \<comment> \<open>raises, or the time stamp of the name and the HTML\<close>
  cwd :: path

subsection \<open>\<open>_clean_content_types\<close>, \<open>_repack_docx\<close>, \<open>_get_file_meta\<close>, \<open>_save_report\<close>\<close>

definition clean_content_types :: "env \<Rightarrow> path \<Rightarrow> tree \<Rightarrow> tree" where
  "clean_content_types E content_types_path t =
     (case t content_types_path of
        Some (File b) \<Rightarrow>
          (case read_text E b of
             Some content \<Rightarrow> t(content_types_path \<mapsto> File (write_text E (sanitize content)))
           | None \<Rightarrow> t)
      | _ \<Rightarrow> t)"

definition repack_docx :: "env \<Rightarrow> tree \<Rightarrow> path \<Rightarrow> world \<Rightarrow> string option \<times> world" where
  "repack_docx E source_dir output_path w =
     (case repack_result E of
        RepackOpenFails e \<Rightarrow> (Some e, w)
      | RepackWriteFails e left \<Rightarrow>
          (Some e, w\<lparr>files := (files w)(output_path \<mapsto> left),
                      fs_log := fs_log w @ [ZipAborted output_path left]\<rparr>)
      | RepackOk \<Rightarrow>
          (let out = zip_write E (regular_files source_dir)
           in (None, w\<lparr>files := (files w)(output_path \<mapsto> out),
                         fs_log := fs_log w @ [ZipWritten output_path out]\<rparr>)))"

definition copy2 :: "env \<Rightarrow> path \<Rightarrow> path \<Rightarrow> world \<Rightarrow> string option \<times> world" where
  "copy2 E src dst w =
     (case copy2_error E of
        Some e \<Rightarrow> (Some e, w)
      | None \<Rightarrow>
          (case files w src of
             None \<Rightarrow> (Some ''FileNotFoundError'', w)
           | Some b \<Rightarrow>
               (None, w\<lparr>files := (files w)(dst \<mapsto> b), fs_log := fs_log w @ [Copy2 src dst b]\<rparr>)))"

definition get_file_meta :: "env \<Rightarrow> world \<Rightarrow> path \<Rightarrow> string" where
  "get_file_meta E w p = (case files w p of None \<Rightarrow> [] | Some b \<Rightarrow> md5 E b)"

definition report_path :: "env \<Rightarrow> string \<Rightarrow> path" where
  "report_path E stamp = path_join (cwd E) (stamp @ ''_macro_cleaner_report.html'')"

definition generate_html_report :: "env \<Rightarrow> report list \<Rightarrow> world \<Rightarrow> string option \<times> world" where
  "generate_html_report E data w =
     (if data = [] then (None, w)
      else
        case render_report E data of
          Inl e \<Rightarrow> (Some e, w)
        | Inr (stamp, html) \<Rightarrow>
            (None, w\<lparr>files := (files w)(report_path E stamp \<mapsto> html),
                       fs_log := fs_log w @ [ReportWritten (report_path E stamp) html]\<rparr>))"

definition save_report :: "env \<Rightarrow> report \<Rightarrow> bool \<Rightarrow> world \<Rightarrow> string option \<times> world" where
  "save_report E current_data generate_report w =
     (let w1 = w\<lparr>report_history := report_history w @ [current_data],
                  save_log := save_log w @ [current_data]\<rparr>
      in if generate_report then generate_html_report E (report_history w1) w1 else (None, w1))"

subsection \<open>\<open>clean_vba_macro\<close>\<close>

text \<open>
  Inside the \<open>try\<close> block a step returns a value or raises; a raise hands the current
  \<open>report_data\<close> to the \<open>except\<close> block.
\<close>

datatype flow = Return int | Raise string

definition finish :: "env \<Rightarrow> report \<Rightarrow> bool \<Rightarrow> int \<Rightarrow> world \<Rightarrow> flow \<times> report \<times> world" where
  "finish E report_data generate_report r w =
     (case save_report E report_data generate_report w of
        (None, w') \<Rightarrow> (Return r, report_data, w')
      | (Some e, w') \<Rightarrow> (Raise e, report_data, w'))"

datatype doc_type = Word | Excel | Ppt

fun vba_paths :: "doc_type \<Rightarrow> path" where
  "vba_paths Word = ''word/vbaProject.bin''"
| "vba_paths Excel = ''xl/vbaProject.bin''"
| "vba_paths Ppt = ''ppt/vbaProject.bin''"

definition detect_doc_type :: "tree \<Rightarrow> doc_type option" where
  "detect_doc_type extract_path =
     (if extract_path ''word'' \<noteq> None then Some Word
      else if extract_path ''xl'' \<noteq> None then Some Excel
      else if extract_path ''ppt'' \<noteq> None then Some Ppt
      else None)"

definition initial_report :: "path \<Rightarrow> bool \<Rightarrow> report" where
  "initial_report input_path is_english =
     \<lparr>r_file_name = name_of input_path, r_file_path = input_path, r_file_size = 0,
      r_status = StatusFail, r_vba_found = False, r_vba_size = 0, r_vba_code = None,
      r_output_path = [], r_message = MsgNone, r_original_md5 = [], r_output_md5 = [],
      r_is_english = is_english\<rparr>"

text \<open>Steps 3 to 8 of the source: from the check of the macro stream to the last return.\<close>

definition strip_and_repack ::
  "env \<Rightarrow> path \<Rightarrow> bool \<Rightarrow> bool \<Rightarrow> tree \<Rightarrow> doc_type \<Rightarrow> report \<Rightarrow> world \<Rightarrow> flow \<times> report \<times> world" where
  "strip_and_repack E input_path replace_original generate_report extract_path dt report_data w =
     (let vba_path = vba_paths dt in
      case extract_path vba_path of
        None \<Rightarrow>
          finish E (report_data\<lparr>r_status := StatusSuccess, r_message := MsgNoMacroSkip,
                                 r_output_path := input_path,
                                 r_output_md5 := get_file_meta E w input_path\<rparr>)
            generate_report 0 w
      | Some Dir \<Rightarrow>
          (Raise ''IsADirectoryError'',
           report_data\<lparr>r_vba_code := Some (fst (extract_vba_code E (files w) input_path))\<rparr>, w)
      | Some (File macro) \<Rightarrow>
          (let vba_found = True;
               vba_size = length macro;
               rd2 = report_data\<lparr>r_vba_code := Some (fst (extract_vba_code E (files w) input_path))\<rparr>;
               tree1 = extract_path(vba_path := None);
               rels_path = vba_path @ ''.rels''
           in if tree1 rels_path = Some Dir then (Raise ''IsADirectoryError'', rd2, w)
              else
                (let tree2 = tree1(rels_path := None);
                     rd3 = rd2\<lparr>r_vba_found := True, r_vba_size := vba_size\<rparr>;
                     w1 = w\<lparr>last_vba_size := vba_size\<rparr>;
                     tree3 = (if tree2 ''[Content_Types].xml'' \<noteq> None
                              then clean_content_types E ''[Content_Types].xml'' tree2
                              else tree2)
                 in case (if replace_original
                          then copy2 E input_path (backup_path_of input_path) w1
                          else (None, w1)) of
                      (Some e, w2) \<Rightarrow> (Raise e, rd3, w2)
                    | (None, w2) \<Rightarrow>
                        (case repack_docx E tree3 input_path w2 of
                           (Some e, w3) \<Rightarrow> (Raise e, rd3, w3)
                         | (None, w3) \<Rightarrow>
                             if files w3 input_path = None
                             then finish E (rd3\<lparr>r_message := MsgSaveFailed\<rparr>) generate_report 0 w3
                             else
                               (let rd4 = rd3\<lparr>r_status := StatusSuccess,
                                               r_output_path := input_path,
                                               r_output_md5 := get_file_meta E w3 input_path\<rparr>
                                in if replace_original \<and> vba_found
                                   then finish E (rd4\<lparr>r_message := MsgMacroClearedReplace\<rparr>)
                                          generate_report 1 w3
                                   else if vba_found
                                   then finish E (rd4\<lparr>r_message := MsgMacroCleared (r_vba_size rd4)\<rparr>)
                                          generate_report 1 w3
                                   else finish E (rd4\<lparr>r_message := MsgNoMacro\<rparr>)
                                          generate_report 0 w3)))))"

text \<open>The \<open>try\<close> block up to the detection of the document type.\<close>

definition try_block ::
  "env \<Rightarrow> path \<Rightarrow> bool \<Rightarrow> bool \<Rightarrow> report \<Rightarrow> world \<Rightarrow> flow \<times> report \<times> world" where
  "try_block E input_path replace_original generate_report report_data w =
     (case files w input_path of
        None \<Rightarrow> finish E (report_data\<lparr>r_message := MsgFileNotFound\<rparr>) generate_report 0 w
      | Some original \<Rightarrow>
          (let suffix_lower = lower (suffix_of input_path) in
           if suffix_lower \<in> set NO_MACRO_EXTS then
             finish E (report_data\<lparr>r_file_size := length original,
                                    r_original_md5 := get_file_meta E w input_path,
                                    r_status := StatusSuccess,
                                    r_message := MsgNoMacroFormat,
                                    r_output_path := input_path,
                                    r_output_md5 := get_file_meta E w input_path\<rparr>)
               generate_report 0 w
           else if suffix_lower \<notin> set SUPPORTED_EXTS then
             finish E (report_data\<lparr>r_message := MsgUnsupportedFormat (suffix_of input_path)\<rparr>)
               generate_report 0 w
           else
             (let rd1 = report_data\<lparr>r_file_size := length original,
                                     r_original_md5 := get_file_meta E w input_path\<rparr>
              in case mkdtemp_error E of
                   Some e \<Rightarrow> (Raise e, rd1, w)
                 | None \<Rightarrow>
                     (case extractall E original of
                        BadZipFile \<Rightarrow>
                          finish E (rd1\<lparr>r_message := MsgInvalidFormat\<rparr>) generate_report 0 w
                      | ExtractError e \<Rightarrow> (Raise e, rd1, w)
                      | Extracted extract_path \<Rightarrow>
                          (case detect_doc_type extract_path of
                             None \<Rightarrow>
                               finish E (rd1\<lparr>r_message := MsgUnknownDocType\<rparr>) generate_report 0 w
                           | Some dt \<Rightarrow>
                               strip_and_repack E input_path replace_original generate_report
                                 extract_path dt rd1 w)))))"

text \<open>
  \<open>Inr r\<close>: the call returns \<open>r\<close>. \<open>Inl e\<close>: the exception \<open>e\<close> leaves the call; that is
  an exception raised by \<open>_save_report\<close> inside the \<open>except\<close> block.
\<close>

definition clean_vba_macro ::
  "env \<Rightarrow> path \<Rightarrow> bool \<Rightarrow> bool \<Rightarrow> bool \<Rightarrow> world \<Rightarrow> (string + int) \<times> world" where
  "clean_vba_macro E input_path replace_original generate_report is_english w0 =
     (let w = w0\<lparr>last_vba_size := 0\<rparr>;
          report_data = initial_report input_path is_english
      in case try_block E input_path replace_original generate_report report_data w of
           (Return r, rd, w') \<Rightarrow> (Inr r, w')
         | (Raise e, rd, w') \<Rightarrow>
             (let rd' = rd\<lparr>r_message := MsgException e\<rparr>;
                  w1 = w'\<lparr>report_history :=
                          restamp (length (report_history w0)) rd' (report_history w')\<rparr>
              in case save_report E rd' generate_report w1 of
                   (None, w'') \<Rightarrow> (Inr 0, w'')
                 | (Some e', w'') \<Rightarrow> (Inl e', w'')))"

subsection \<open>The pipeline as a state machine\<close>

text \<open>
  The state machine of section 4.4 of the specification, read off the conditions of the
  code: \<open>route_of\<close> is the outcome that a call reaches, with the outcome
  \<open>Fail(Exception)\<close> split by the step that raises. \<open>events_of\<close>, \<open>record_of\<close> and
  \<open>size_of\<close> are the file events, the \<open>report_data\<close> and the \<open>_last_vba_size\<close> of the
  route. \<open>report_events\<close> and \<open>report_error\<close> are the two results of one
  \<open>_generate_html_report\<close>. The theorems of the next section show that \<open>clean_vba_macro\<close> is
  the composition of these.
\<close>

definition report_events :: "env \<Rightarrow> bool \<Rightarrow> report list \<Rightarrow> fs_event list" where
  "report_events E gen h =
     (if gen \<and> h \<noteq> [] then
        (case render_report E h of
           Inl e \<Rightarrow> []
         | Inr (stamp, html) \<Rightarrow> [ReportWritten (report_path E stamp) html])
      else [])"

definition report_error :: "env \<Rightarrow> bool \<Rightarrow> report list \<Rightarrow> string option" where
  "report_error E gen h =
     (if gen \<and> h \<noteq> [] then (case render_report E h of Inl e \<Rightarrow> Some e | Inr x \<Rightarrow> None)
      else None)"

definition logged :: "world \<Rightarrow> fs_event list \<Rightarrow> world" where
  "logged w evs = w\<lparr>files := replay (files w) evs, fs_log := fs_log w @ evs\<rparr>"

definition recorded :: "world \<Rightarrow> report \<Rightarrow> world" where
  "recorded w rd = w\<lparr>report_history := report_history w @ [rd], save_log := save_log w @ [rd]\<rparr>"

datatype step = AtMkdtemp | AtExtract | AtUnlinkStream | AtUnlinkSidecar | AtBackup
  | AtRepackOpen | AtRepackWrite bytes

datatype route =
    FileNotFound
  | NoMacroByFormat
  | UnsupportedFormat
  | InvalidFormat
  | UnknownDocType
  | NoMacroFound
  | MacroCleared
  | Exception step string

definition stripped_tree :: "env \<Rightarrow> tree \<Rightarrow> doc_type \<Rightarrow> tree" where
  "stripped_tree E t dt =
     (let t2 = t(vba_paths dt := None, vba_paths dt @ ''.rels'' := None)
      in if t2 ''[Content_Types].xml'' \<noteq> None
         then clean_content_types E ''[Content_Types].xml'' t2 else t2)"

definition strip_route :: "env \<Rightarrow> bool \<Rightarrow> tree \<Rightarrow> doc_type \<Rightarrow> route" where
  "strip_route E ro t dt =
     (case t (vba_paths dt) of
        None \<Rightarrow> NoMacroFound
      | Some Dir \<Rightarrow> Exception AtUnlinkStream ''IsADirectoryError''
      | Some (File m) \<Rightarrow>
          if t (vba_paths dt @ ''.rels'') = Some Dir
          then Exception AtUnlinkSidecar ''IsADirectoryError''
          else
            (case (if ro then copy2_error E else None) of
               Some e \<Rightarrow> Exception AtBackup e
             | None \<Rightarrow>
                 (case repack_result E of
                    RepackOpenFails e \<Rightarrow> Exception AtRepackOpen e
                  | RepackWriteFails e left \<Rightarrow> Exception (AtRepackWrite left) e
                  | RepackOk \<Rightarrow> MacroCleared)))"

definition backup_events :: "bool \<Rightarrow> path \<Rightarrow> bytes \<Rightarrow> fs_event list" where
  "backup_events ro p original = (if ro then [Copy2 p (backup_path_of p) original] else [])"

definition core_events :: "env \<Rightarrow> path \<Rightarrow> bool \<Rightarrow> bytes \<Rightarrow> tree \<Rightarrow> doc_type \<Rightarrow> route \<Rightarrow> fs_event list" where
  "core_events E p ro original t dt r =
     (case r of
        MacroCleared \<Rightarrow>
          backup_events ro p original
          @ [ZipWritten p (zip_write E (regular_files (stripped_tree E t dt)))]
      | Exception (AtRepackWrite left) e \<Rightarrow> backup_events ro p original @ [ZipAborted p left]
      | Exception AtRepackOpen e \<Rightarrow> backup_events ro p original
      | _ \<Rightarrow> [])"

definition stream_size :: "tree \<Rightarrow> doc_type \<Rightarrow> nat" where
  "stream_size t dt = (case t (vba_paths dt) of Some (File m) \<Rightarrow> length m | _ \<Rightarrow> 0)"

definition sized :: "route \<Rightarrow> bool" where
  "sized r = (case r of MacroCleared \<Rightarrow> True | Exception AtBackup e \<Rightarrow> True
      | Exception AtRepackOpen e \<Rightarrow> True | Exception (AtRepackWrite l) e \<Rightarrow> True | _ \<Rightarrow> False)"

definition strip_record :: "env \<Rightarrow> path \<Rightarrow> bool \<Rightarrow> tree \<Rightarrow> doc_type \<Rightarrow> report \<Rightarrow> world \<Rightarrow> route \<Rightarrow> report" where
  "strip_record E p ro t dt rd w r =
     (let code = Some (fst (extract_vba_code E (files w) p));
          rd3 = rd\<lparr>r_vba_code := code, r_vba_found := True, r_vba_size := stream_size t dt\<rparr>
      in case r of
           NoMacroFound \<Rightarrow>
             rd\<lparr>r_status := StatusSuccess, r_message := MsgNoMacroSkip, r_output_path := p,
                r_output_md5 := get_file_meta E w p\<rparr>
         | MacroCleared \<Rightarrow>
             rd3\<lparr>r_status := StatusSuccess, r_output_path := p,
                 r_output_md5 := md5 E (zip_write E (regular_files (stripped_tree E t dt))),
                 r_message := (if ro then MsgMacroClearedReplace
                               else MsgMacroCleared (stream_size t dt))\<rparr>
         | Exception AtUnlinkStream e \<Rightarrow> rd\<lparr>r_vba_code := code\<rparr>
         | Exception AtUnlinkSidecar e \<Rightarrow> rd\<lparr>r_vba_code := code\<rparr>
         | _ \<Rightarrow> rd3)"

definition raised :: "route \<Rightarrow> string option" where
  "raised r = (case r of Exception s e \<Rightarrow> Some e | _ \<Rightarrow> None)"

definition returned :: "route \<Rightarrow> int" where
  "returned r = (case r of MacroCleared \<Rightarrow> 1 | _ \<Rightarrow> 0)"

definition conclude :: "env \<Rightarrow> bool \<Rightarrow> route \<Rightarrow> report \<Rightarrow> world \<Rightarrow> flow \<times> report \<times> world" where
  "conclude E gen r rd w =
     (case raised r of Some e \<Rightarrow> (Raise e, rd, w) | None \<Rightarrow> finish E rd gen (returned r) w)"

definition the_tree :: "env \<Rightarrow> bytes \<Rightarrow> tree" where
  "the_tree E original = (case extractall E original of Extracted t \<Rightarrow> t | _ \<Rightarrow> Map.empty)"

definition the_doc_type :: "tree \<Rightarrow> doc_type" where
  "the_doc_type t = (case detect_doc_type t of Some dt \<Rightarrow> dt | None \<Rightarrow> Word)"

definition route_of :: "env \<Rightarrow> path \<Rightarrow> bool \<Rightarrow> (path \<rightharpoonup> bytes) \<Rightarrow> route" where
  "route_of E p ro fs =
     (case fs p of
        None \<Rightarrow> FileNotFound
      | Some original \<Rightarrow>
          if lower (suffix_of p) \<in> set NO_MACRO_EXTS then NoMacroByFormat
          else if lower (suffix_of p) \<notin> set SUPPORTED_EXTS then UnsupportedFormat
          else
            (case mkdtemp_error E of
               Some e \<Rightarrow> Exception AtMkdtemp e
             | None \<Rightarrow>
                 (case extractall E original of
                    BadZipFile \<Rightarrow> InvalidFormat
                  | ExtractError e \<Rightarrow> Exception AtExtract e
                  | Extracted t \<Rightarrow>
                      (case detect_doc_type t of
                         None \<Rightarrow> UnknownDocType
                       | Some dt \<Rightarrow> strip_route E ro t dt))))"

definition events_of :: "env \<Rightarrow> path \<Rightarrow> bool \<Rightarrow> (path \<rightharpoonup> bytes) \<Rightarrow> fs_event list" where
  "events_of E p ro fs =
     (case fs p of
        None \<Rightarrow> []
      | Some original \<Rightarrow>
          core_events E p ro original (the_tree E original) (the_doc_type (the_tree E original))
            (route_of E p ro fs))"

definition record_of :: "env \<Rightarrow> path \<Rightarrow> bool \<Rightarrow> report \<Rightarrow> world \<Rightarrow> report" where
  "record_of E p ro rd w =
     (case files w p of
        None \<Rightarrow> rd\<lparr>r_message := MsgFileNotFound\<rparr>
      | Some original \<Rightarrow>
          (let rd1 = rd\<lparr>r_file_size := length original, r_original_md5 := md5 E original\<rparr>
           in case route_of E p ro (files w) of
                FileNotFound \<Rightarrow> rd\<lparr>r_message := MsgFileNotFound\<rparr>
              | NoMacroByFormat \<Rightarrow>
                  rd1\<lparr>r_status := StatusSuccess, r_message := MsgNoMacroFormat,
                      r_output_path := p, r_output_md5 := md5 E original\<rparr>
              | UnsupportedFormat \<Rightarrow> rd\<lparr>r_message := MsgUnsupportedFormat (suffix_of p)\<rparr>
              | InvalidFormat \<Rightarrow> rd1\<lparr>r_message := MsgInvalidFormat\<rparr>
              | UnknownDocType \<Rightarrow> rd1\<lparr>r_message := MsgUnknownDocType\<rparr>
              | Exception AtMkdtemp e \<Rightarrow> rd1
              | Exception AtExtract e \<Rightarrow> rd1
              | r \<Rightarrow> strip_record E p ro (the_tree E original) (the_doc_type (the_tree E original))
                       rd1 w r))"

definition size_of :: "env \<Rightarrow> path \<Rightarrow> bool \<Rightarrow> world \<Rightarrow> nat" where
  "size_of E p ro w =
     (case files w p of
        None \<Rightarrow> last_vba_size w
      | Some original \<Rightarrow>
          if sized (route_of E p ro (files w))
          then stream_size (the_tree E original) (the_doc_type (the_tree E original))
          else last_vba_size w)"

definition handler ::
  "env \<Rightarrow> bool \<Rightarrow> nat \<Rightarrow> report \<Rightarrow> string \<Rightarrow> world \<Rightarrow> (string + int) \<times> world" where
  "handler E gen n rd e w =
     (case save_report E (rd\<lparr>r_message := MsgException e\<rparr>) gen
             (w\<lparr>report_history :=
                  restamp n (rd\<lparr>r_message := MsgException e\<rparr>) (report_history w)\<rparr>) of
        (None, w'') \<Rightarrow> (Inr 0, w'')
      | (Some e', w'') \<Rightarrow> (Inl e', w''))"

definition settle ::
  "env \<Rightarrow> bool \<Rightarrow> nat \<Rightarrow> flow \<times> report \<times> world \<Rightarrow> (string + int) \<times> world" where
  "settle E gen n x =
     (case x of (Return r, rd, w') \<Rightarrow> (Inr r, w') | (Raise e, rd, w') \<Rightarrow> handler E gen n rd e w')"

text \<open>The message and the status of the first record of a call, by route.\<close>

definition message_of :: "env \<Rightarrow> path \<Rightarrow> bool \<Rightarrow> world \<Rightarrow> route \<Rightarrow> message" where
  "message_of E p ro w r =
     (case r of
        FileNotFound \<Rightarrow> MsgFileNotFound
      | NoMacroByFormat \<Rightarrow> MsgNoMacroFormat
      | UnsupportedFormat \<Rightarrow> MsgUnsupportedFormat (suffix_of p)
      | InvalidFormat \<Rightarrow> MsgInvalidFormat
      | UnknownDocType \<Rightarrow> MsgUnknownDocType
      | NoMacroFound \<Rightarrow> MsgNoMacroSkip
      | MacroCleared \<Rightarrow>
          if ro then MsgMacroClearedReplace
          else MsgMacroCleared (size_of E p ro (w\<lparr>last_vba_size := 0\<rparr>))
      | Exception s e \<Rightarrow> MsgException e)"

definition status_of :: "route \<Rightarrow> status" where
  "status_of r =
     (case r of NoMacroByFormat \<Rightarrow> StatusSuccess | NoMacroFound \<Rightarrow> StatusSuccess
      | MacroCleared \<Rightarrow> StatusSuccess | _ \<Rightarrow> StatusFail)"

text \<open>
  \<open>overwrites p ev\<close>: the event is a write of \<open>_repack_docx\<close> to \<open>p\<close>, completed or not.
  \<open>is_report_write ev\<close>: the event is the write of a report file.
  \<open>first_record w w'\<close> is the record that a call from \<open>w\<close> to \<open>w'\<close> handed to its first
  \<open>_save_report\<close>, as it was then.
\<close>

definition overwrites :: "path \<Rightarrow> fs_event \<Rightarrow> bool" where
  "overwrites p ev =
     (case ev of ZipWritten q b \<Rightarrow> q = p | ZipAborted q b \<Rightarrow> q = p | _ \<Rightarrow> False)"

definition is_report_write :: "fs_event \<Rightarrow> bool" where
  "is_report_write ev = (case ev of ReportWritten q b \<Rightarrow> suffix_of q = ''.html'' | _ \<Rightarrow> False)"

definition first_record :: "world \<Rightarrow> world \<Rightarrow> report" where
  "first_record w w' = save_log w' ! length (save_log w)"


text \<open>
  Concrete values for the examples: two unpacked workbooks, an environment in which every
  library call succeeds, variants of it in which one call fails, and a world with a few
  files.
\<close>

definition budget_tree :: tree where
  "budget_tree =
     [''xl'' \<mapsto> Dir,
      ''xl/workbook.xml'' \<mapsto> File ''<workbook/>'',
      ''xl/vbaProject.bin'' \<mapsto> File ''MACRO'',
      ''[Content_Types].xml'' \<mapsto> File ''<Types/>'']"

definition mixed_tree :: tree where
  "mixed_tree =
     [''word'' \<mapsto> Dir,
      ''word/document.xml'' \<mapsto> File ''<document/>'',
      ''word/vbaProject.bin'' \<mapsto> File ''WORD-MACRO'',
      ''xl'' \<mapsto> Dir,
      ''xl/vbaProject.bin'' \<mapsto> File ''XL-MACRO'']"

definition plain_tree :: tree where
  "plain_tree = [''xl'' \<mapsto> Dir, ''xl/workbook.xml'' \<mapsto> File ''<workbook/>'']"

definition silent_parser :: vba_parser where
  "silent_parser = \<lparr>detect = Some True, macros = Inr [], all_modules = None, vba_projects = []\<rparr>"

definition module_parser :: vba_parser where
  "module_parser =
     \<lparr>detect = None, macros = Inr [CStr ''Sub Auto_Open()'', CNone], all_modules = None,
      vba_projects = []\<rparr>"

definition demo_env :: env where
  "demo_env =
     \<lparr>oletools = True,
      VBA_Parser = (\<lambda>b. if b = Some ''MACRO'' then Inr module_parser else Inr silent_parser),
      zip_open = (\<lambda>b. if b = ''PK-budget''
                        then Some \<lparr>namelist = [''xl/workbook.xml'', ''xl/vbaProject.bin''],
                                    zread = (\<lambda>n. Inr ''MACRO'')\<rparr>
                        else None),
      mkstemp_error = None,
      md5 = (\<lambda>b. ''md5:'' @ b),
      mkdtemp_error = None,
      extractall = (\<lambda>b. if b = ''PK-budget'' then Extracted budget_tree
                          else if b = ''PK-mixed'' then Extracted mixed_tree
                          else if b = ''PK-plain'' then Extracted plain_tree
                          else BadZipFile),
      read_text = (\<lambda>b. Some (utext b)),
      write_text = (\<lambda>u. ''<Types/>''),
      copy2_error = None,
      repack_result = RepackOk,
      zip_write = (\<lambda>fs. if fs ''xl/vbaProject.bin'' = None then ''PK-repacked''
                          else ''PK-repacked-with-xl-macro''),
      render_report = (\<lambda>h. Inr (''2026-01-01_00-00-00'', ''<html>'')),
      cwd = ''/home/user''\<rparr>"

definition readonly_cwd_env :: env where
  "readonly_cwd_env = demo_env\<lparr>render_report := (\<lambda>h. Inl ''PermissionError'')\<rparr>"

definition flaky_report_env :: env where
  "flaky_report_env =
     demo_env\<lparr>render_report := (\<lambda>h. if length h = 1 then Inl ''PermissionError''
                                     else Inr (''2026-01-01_00-00-01'', ''<html>''))\<rparr>"

definition disk_full_env :: env where
  "disk_full_env = demo_env\<lparr>repack_result := RepackWriteFails ''OSError: No space left'' []\<rparr>"

definition strict_parser_env :: env where
  "strict_parser_env =
     demo_env\<lparr>VBA_Parser := (\<lambda>b. if b = Some ''MACRO'' then Inr module_parser
                                   else Inl ''FileOpenError'')\<rparr>"

definition demo_world :: world where
  "demo_world =
     \<lparr>files = [''/docs/budget.xlsm'' \<mapsto> ''PK-budget'',
               ''/docs/MIXED.DOCM'' \<mapsto> ''PK-mixed'',
               ''/docs/report.xlsm'' \<mapsto> ''PK-plain'',
               ''/docs/invoice.xlsx'' \<mapsto> ''PK-plain'',
               ''/docs/INVOICE.XLSX'' \<mapsto> ''PK-plain'',
               ''/docs/notes.md'' \<mapsto> ''# notes''],
      report_history = [], last_vba_size = 0, fs_log = [], save_log = []\<rparr>"

definition demo_manifest :: ustring where
  "demo_manifest =
     utext ''<Types>\<newline><Default Extension=\"bin\" ContentType=\"vba\"/>\<newline>\<newline><Override PartName=\"/xl/vbaProject.bin\" ContentType=\"vba\"/>\<newline></Types>''"

definition nested_manifest :: ustring where
  "nested_manifest = utext ''<Default Ext<Default Extension=\"bin\"/>ension=\"bin\"/>''"

section \<open>Properties of paths\<close>

lemma name_of_append:
  assumes "CHR ''/'' \<notin> set t"
  shows "name_of (x @ t) = name_of x @ t"
proof -
  have "\<forall>c\<in>set (rev t). c \<noteq> CHR ''/''" using assms by auto
  then have "takeWhile (\<lambda>c. c \<noteq> CHR ''/'') (rev t @ rev x) = rev t @ takeWhile (\<lambda>c. c \<noteq> CHR ''/'') (rev x)"
    by (intro takeWhile_append2) auto
  then show ?thesis by (simp add: name_of_def)
qed

lemma suffix_of_report: "suffix_of (x @ ''_macro_cleaner_report.html'') = ''.html''"
proof -
  have n: "name_of (x @ ''_macro_cleaner_report.html'') = name_of x @ ''_macro_cleaner_report.html''"
    by (rule name_of_append) simp
  show ?thesis unfolding suffix_of_def n by (simp add: Let_def)
qed

lemma suffix_of_report_path: "suffix_of (report_path E stamp) = ''.html''"
proof -
  have "\<exists>x. report_path E stamp = x @ ''_macro_cleaner_report.html''"
    by (simp add: report_path_def path_join_def)
  then show ?thesis using suffix_of_report by auto
qed

lemma lower_html: "lower ''.html'' = ''.html''"
  by (simp add: lower_def lower_char_def)

lemma report_path_not_office:
  "lower (suffix_of p) \<in> set SUPPORTED_EXTS \<union> set NO_MACRO_EXTS \<Longrightarrow> report_path E stamp \<noteq> p"
proof
  assume a: "lower (suffix_of p) \<in> set SUPPORTED_EXTS \<union> set NO_MACRO_EXTS" and "report_path E stamp = p"
  then have "suffix_of p = ''.html''" using suffix_of_report_path by auto
  with a show False by (simp add: lower_html SUPPORTED_EXTS_def NO_MACRO_EXTS_def)
qed

lemma parent_name: "parent_prefix p @ name_of p = p"
proof -
  have "rev (parent_prefix p @ name_of p) = rev p"
    by (simp add: parent_prefix_def name_of_def)
  then show ?thesis using rev_is_rev_conv by blast
qed

lemma stem_suffix: "stem_of p @ suffix_of p = name_of p"
proof (cases "suffix_of p = []")
  case True
  then show ?thesis by (simp add: stem_of_def)
next
  case False
  let ?n = "name_of p"
  let ?P = "\<lambda>c. c \<noteq> CHR ''.''"
  from False have c: "CHR ''.'' \<in> set ?n" and s: "suffix_of p = CHR ''.'' # rev (takeWhile ?P (rev ?n))"
    by (auto simp: suffix_of_def Let_def split: if_splits)
  from c have "dropWhile ?P (rev ?n) \<noteq> []" by (simp add: dropWhile_eq_Nil_conv)
  then obtain d r where r: "dropWhile ?P (rev ?n) = d # r" by (cases "dropWhile ?P (rev ?n)") auto
  have "\<not> ?P (hd (dropWhile ?P (rev ?n)))" using \<open>dropWhile ?P (rev ?n) \<noteq> []\<close> by (rule hd_dropWhile)
  with r have d: "d = CHR ''.''" by simp
  have "rev ?n = takeWhile ?P (rev ?n) @ dropWhile ?P (rev ?n)" by simp
  then have "rev ?n = takeWhile ?P (rev ?n) @ CHR ''.'' # r" using r d by simp
  then have "rev (rev ?n) = rev (takeWhile ?P (rev ?n) @ CHR ''.'' # r)" by (rule arg_cong)
  then have "?n = rev r @ suffix_of p" using s by simp
  then have "take (length ?n - length (suffix_of p)) ?n = rev r"
    by (metis append_eq_conv_conj diff_add_inverse2 length_append)
  then show ?thesis using \<open>?n = rev r @ suffix_of p\<close> by (simp add: stem_of_def)
qed

lemma backup_path_length: "length (backup_path_of p) = length p + 7"
proof -
  have "length p = length (parent_prefix p @ name_of p)" by (simp only: parent_name)
  also have "\<dots> = length (parent_prefix p) + length (stem_of p @ suffix_of p)"
    by (simp only: stem_suffix length_append)
  finally show ?thesis by (simp add: backup_path_of_def)
qed

lemma backup_path_neq: "backup_path_of p \<noteq> p"
  using backup_path_length [of p] by auto

section \<open>The pipeline follows the state machine\<close>

lemma save_report_closed:
  "save_report E rd gen w =
     (report_error E gen (report_history w @ [rd]),
      logged (recorded w rd) (report_events E gen (report_history w @ [rd])))"
  by (simp add: save_report_def generate_html_report_def Let_def report_error_def
      report_events_def logged_def recorded_def replay_def split: sum.splits prod.splits)

lemma finish_closed:
  "finish E rd gen r w =
     ((case report_error E gen (report_history w @ [rd]) of None \<Rightarrow> Return r | Some e \<Rightarrow> Raise e),
      rd, logged (recorded w rd) (report_events E gen (report_history w @ [rd])))"
  by (simp add: finish_def save_report_closed split: option.splits)

lemma copy2_closed:
  "files w src = Some b \<Longrightarrow>
   copy2 E src dst w = (case copy2_error E of Some e \<Rightarrow> (Some e, w)
                         | None \<Rightarrow> (None, logged w [Copy2 src dst b]))"
  by (simp add: copy2_def logged_def replay_def split: option.splits)

lemma repack_closed:
  "repack_docx E t out w =
     (case repack_result E of
        RepackOpenFails e \<Rightarrow> (Some e, w)
      | RepackWriteFails e left \<Rightarrow> (Some e, logged w [ZipAborted out left])
      | RepackOk \<Rightarrow> (None, logged w [ZipWritten out (zip_write E (regular_files t))]))"
  by (simp add: repack_docx_def logged_def replay_def Let_def split: repack_result.splits)

lemma logged_simps [simp]:
  "fs_log (logged w evs) = fs_log w @ evs"
  "files (logged w evs) = replay (files w) evs"
  "report_history (logged w evs) = report_history w"
  "save_log (logged w evs) = save_log w"
  "last_vba_size (logged w evs) = last_vba_size w"
  by (simp_all add: logged_def)

lemma recorded_simps [simp]:
  "fs_log (recorded w rd) = fs_log w"
  "files (recorded w rd) = files w"
  "report_history (recorded w rd) = report_history w @ [rd]"
  "save_log (recorded w rd) = save_log w @ [rd]"
  "last_vba_size (recorded w rd) = last_vba_size w"
  by (simp_all add: recorded_def)

lemma replay_append [simp]: "replay f (xs @ ys) = replay (replay f xs) ys"
  by (simp add: replay_def)

lemma replay_Nil [simp]: "replay f [] = f"
  by (simp add: replay_def)

lemma new_events_append [simp]: "fs_log w' = fs_log w @ evs \<Longrightarrow> new_events w w' = evs"
  by (simp add: new_events_def)

lemma replay_Cons [simp]: "replay f (ev # evs) = replay (apply_event f ev) evs"
  by (simp add: replay_def)

lemma strip_and_repack_route:
  "files w p = Some original \<Longrightarrow>
   strip_and_repack E p ro gen t dt rd w =
     conclude E gen (strip_route E ro t dt)
       (strip_record E p ro t dt rd w (strip_route E ro t dt))
       (logged (if sized (strip_route E ro t dt) then w\<lparr>last_vba_size := stream_size t dt\<rparr> else w)
          (core_events E p ro original t dt (strip_route E ro t dt)))"
  apply (simp add: strip_and_repack_def Let_def repack_closed copy2_closed strip_route_def
      conclude_def raised_def returned_def sized_def stream_size_def core_events_def
      strip_record_def stripped_tree_def backup_events_def get_file_meta_def
      split: option.split node.split repack_result.split)
  apply (auto simp: logged_def)
  done

lemma strip_route_cases:
  "strip_route E ro t dt \<in> {NoMacroFound, MacroCleared} \<union> range (Exception AtUnlinkStream)
      \<union> range (Exception AtUnlinkSidecar) \<union> range (Exception AtBackup)
      \<union> range (Exception AtRepackOpen) \<union> {Exception (AtRepackWrite l) e | l e. True}"
  by (auto simp: strip_route_def split: option.splits node.splits repack_result.splits)

lemma try_block_route:
  "try_block E p ro gen rd w =
     conclude E gen (route_of E p ro (files w)) (record_of E p ro rd w)
       (logged (w\<lparr>last_vba_size := size_of E p ro w\<rparr>) (events_of E p ro (files w)))"
proof (cases "files w p")
  case None
  then show ?thesis
    by (simp add: try_block_def route_of_def record_of_def events_of_def size_of_def conclude_def
        raised_def returned_def logged_def)
next
  case (Some original)
  note orig = Some
  show ?thesis
  proof (cases "lower (suffix_of p) \<in> set NO_MACRO_EXTS")
    case True
    with orig show ?thesis
      by (simp add: try_block_def route_of_def record_of_def events_of_def size_of_def conclude_def
          raised_def returned_def logged_def core_events_def sized_def get_file_meta_def)
  next
    case nm: False
    show ?thesis
    proof (cases "lower (suffix_of p) \<in> set SUPPORTED_EXTS")
      case False
      with orig nm show ?thesis
        by (simp add: try_block_def route_of_def record_of_def events_of_def size_of_def conclude_def
            raised_def returned_def logged_def core_events_def sized_def get_file_meta_def)
    next
      case sup: True
      show ?thesis
      proof (cases "mkdtemp_error E")
        case (Some e)
        with orig nm sup show ?thesis
          by (simp add: try_block_def route_of_def record_of_def events_of_def size_of_def conclude_def
              raised_def returned_def logged_def core_events_def sized_def get_file_meta_def Let_def)
      next
        case None
        note mk = None
        show ?thesis
        proof (cases "extractall E original")
          case BadZipFile
          with orig nm sup mk show ?thesis
            by (simp add: try_block_def route_of_def record_of_def events_of_def size_of_def conclude_def
                raised_def returned_def logged_def core_events_def sized_def get_file_meta_def Let_def)
        next
          case (ExtractError e)
          with orig nm sup mk show ?thesis
            by (simp add: try_block_def route_of_def record_of_def events_of_def size_of_def conclude_def
                raised_def returned_def logged_def core_events_def sized_def get_file_meta_def Let_def)
        next
          case (Extracted t)
          note ex = Extracted
          show ?thesis
          proof (cases "detect_doc_type t")
            case None
            with orig nm sup mk ex show ?thesis
              by (simp add: try_block_def route_of_def record_of_def events_of_def size_of_def conclude_def
                  raised_def returned_def logged_def core_events_def sized_def get_file_meta_def Let_def)
          next
            case (Some dt)
            have r: "route_of E p ro (files w) = strip_route E ro t dt"
              using orig nm sup mk ex Some by (simp add: route_of_def)
            have tb: "try_block E p ro gen rd w =
                strip_and_repack E p ro gen t dt
                  (rd\<lparr>r_file_size := length original, r_original_md5 := md5 E original\<rparr>) w"
              using orig nm sup mk ex Some by (simp add: try_block_def Let_def get_file_meta_def)
            have rec: "record_of E p ro rd w =
                strip_record E p ro t dt
                  (rd\<lparr>r_file_size := length original, r_original_md5 := md5 E original\<rparr>) w
                  (strip_route E ro t dt)"
              using strip_route_cases [of E ro t dt] orig ex Some
              by (auto simp: record_of_def r the_tree_def the_doc_type_def Let_def)
            have ev: "events_of E p ro (files w) =
                core_events E p ro original t dt (strip_route E ro t dt)"
              using orig ex Some by (simp add: events_of_def r the_tree_def the_doc_type_def)
            have sz: "w\<lparr>last_vba_size := size_of E p ro w\<rparr> =
                (if sized (strip_route E ro t dt) then w\<lparr>last_vba_size := stream_size t dt\<rparr> else w)"
              using orig ex Some by (simp add: size_of_def r the_tree_def the_doc_type_def)
            show ?thesis
              unfolding tb strip_and_repack_route [OF orig] r rec ev sz ..
          qed
        qed
      qed
    qed
  qed
qed

lemma restamp_same [simp]: "restamp (length h) rd h = h"
  by (simp add: restamp_def)

lemma restamp_one [simp]: "restamp (length h) rd (h @ [x]) = h @ [rd]"
  by (simp add: restamp_def)

lemma clean_vba_macro_route:
  "clean_vba_macro E p ro gen en w0 =
     settle E gen (length (report_history w0))
       (conclude E gen (route_of E p ro (files w0))
          (record_of E p ro (initial_report p en) (w0\<lparr>last_vba_size := 0\<rparr>))
          (logged (w0\<lparr>last_vba_size := size_of E p ro (w0\<lparr>last_vba_size := 0\<rparr>)\<rparr>)
             (events_of E p ro (files w0))))"
  by (simp add: clean_vba_macro_def Let_def try_block_route settle_def handler_def
      split: prod.splits flow.splits)

lemma report_events_writes: "list_all is_report_write (report_events E gen h)"
  by (simp add: report_events_def is_report_write_def suffix_of_report_path
      split: sum.splits prod.splits)

lemma report_events_short: "length (report_events E gen h) \<le> 1"
  by (simp add: report_events_def split: sum.splits prod.splits)

lemma report_events_gen: "\<not> gen \<Longrightarrow> report_events E gen h = []"
  by (simp add: report_events_def)

lemma report_error_gen: "report_error E gen h = Some e \<Longrightarrow> gen \<and> render_report E h = Inl e"
  by (auto simp: report_error_def split: if_splits sum.splits)

lemma report_error_events: "report_error E gen h = Some e \<Longrightarrow> report_events E gen h = []"
  by (auto simp: report_error_def report_events_def split: if_splits sum.splits)

text \<open>The log of a call: the events of the route, then at most one report.\<close>

lemma call_log:
  assumes "clean_vba_macro E p ro gen en w0 = (res, w')"
  shows "\<exists>reps. fs_log w' = fs_log w0 @ events_of E p ro (files w0) @ reps
           \<and> files w' = replay (files w0) (events_of E p ro (files w0) @ reps)
           \<and> list_all is_report_write reps \<and> length reps \<le> 1 \<and> (reps \<noteq> [] \<longrightarrow> gen)"
proof -
  let ?r = "route_of E p ro (files w0)"
  let ?rd = "record_of E p ro (initial_report p en) (w0\<lparr>last_vba_size := 0\<rparr>)"
  let ?h = "report_history w0"
  show ?thesis
  proof (cases "raised ?r")
    case (Some e)
    let ?reps = "report_events E gen (?h @ [?rd\<lparr>r_message := MsgException e\<rparr>])"
    from assms Some have "fs_log w' = fs_log w0 @ events_of E p ro (files w0) @ ?reps
        \<and> files w' = replay (files w0) (events_of E p ro (files w0) @ ?reps)"
      by (auto simp: clean_vba_macro_route settle_def conclude_def handler_def save_report_closed
          split: option.splits)
    then show ?thesis
      using report_events_writes report_events_short report_events_gen by blast
  next
    case None
    note nr = None
    let ?reps1 = "report_events E gen (?h @ [?rd])"
    show ?thesis
    proof (cases "report_error E gen (?h @ [?rd])")
      case None
      from assms nr None have "fs_log w' = fs_log w0 @ events_of E p ro (files w0) @ ?reps1
          \<and> files w' = replay (files w0) (events_of E p ro (files w0) @ ?reps1)"
        by (auto simp: clean_vba_macro_route settle_def conclude_def finish_closed)
      then show ?thesis
        using report_events_writes report_events_short report_events_gen by blast
    next
      case (Some e)
      let ?reps2 = "report_events E gen (?h @ [?rd\<lparr>r_message := MsgException e\<rparr>, ?rd\<lparr>r_message := MsgException e\<rparr>])"
      from assms nr Some report_error_events [OF Some]
      have "fs_log w' = fs_log w0 @ events_of E p ro (files w0) @ ?reps2
          \<and> files w' = replay (files w0) (events_of E p ro (files w0) @ ?reps2)"
        by (auto simp: clean_vba_macro_route settle_def conclude_def finish_closed handler_def
            save_report_closed split: option.splits)
      then show ?thesis
        using report_events_writes report_events_short report_events_gen by blast
    qed
  qed
qed

lemma call_result:
  assumes "clean_vba_macro E p ro gen en w0 = (res, w')"
  shows "(res = Inr 1 \<longleftrightarrow>
            route_of E p ro (files w0) = MacroCleared
            \<and> report_error E gen (report_history w0 @
                 [record_of E p ro (initial_report p en) (w0\<lparr>last_vba_size := 0\<rparr>)]) = None)
         \<and> (res = Inr 0 \<or> res = Inr 1 \<or> (\<exists>e h. res = Inl e \<and> gen \<and> render_report E h = Inl e))
         \<and> (\<not> gen \<longrightarrow> res = Inr (returned (route_of E p ro (files w0))))"
proof -
  let ?r = "route_of E p ro (files w0)"
  let ?rd = "record_of E p ro (initial_report p en) (w0\<lparr>last_vba_size := 0\<rparr>)"
  let ?h = "report_history w0"
  show ?thesis
  proof (cases "raised ?r")
    case (Some e)
    then have nc: "?r \<noteq> MacroCleared" by (auto simp: raised_def)
    from Some have ret: "returned ?r = 0" by (auto simp: raised_def returned_def split: route.splits)
    show ?thesis
    proof (cases "report_error E gen (?h @ [?rd\<lparr>r_message := MsgException e\<rparr>])")
      case None
      with assms Some have "res = Inr 0"
        by (auto simp: clean_vba_macro_route settle_def conclude_def handler_def save_report_closed)
      with nc ret show ?thesis by simp
    next
      case (Some e')
      with assms \<open>raised ?r = Some e\<close> have "res = Inl e'"
        by (auto simp: clean_vba_macro_route settle_def conclude_def handler_def save_report_closed)
      with nc report_error_gen [OF Some] show ?thesis by auto
    qed
  next
    case None
    note nr = None
    show ?thesis
    proof (cases "report_error E gen (?h @ [?rd])")
      case None
      with assms nr have res: "res = Inr (returned ?r)"
        by (auto simp: clean_vba_macro_route settle_def conclude_def finish_closed)
      show ?thesis using res None by (cases ?r) (auto simp: returned_def)
    next
      case (Some e)
      note e1 = Some
      show ?thesis
      proof (cases "report_error E gen (?h @ [?rd\<lparr>r_message := MsgException e\<rparr>, ?rd\<lparr>r_message := MsgException e\<rparr>])")
        case None
        with assms nr e1 have "res = Inr 0"
          by (auto simp: clean_vba_macro_route settle_def conclude_def finish_closed handler_def
              save_report_closed)
        with e1 report_error_gen [OF e1] show ?thesis by auto
      next
        case (Some e')
        with assms nr e1 have "res = Inl e'"
          by (auto simp: clean_vba_macro_route settle_def conclude_def finish_closed handler_def
              save_report_closed)
        with e1 report_error_gen [OF Some] show ?thesis by auto
      qed
    qed
  qed
qed

lemma call_first_record:
  assumes "clean_vba_macro E p ro gen en w0 = (res, w')"
  shows "first_record w0 w' =
     (case raised (route_of E p ro (files w0)) of
        None \<Rightarrow> record_of E p ro (initial_report p en) (w0\<lparr>last_vba_size := 0\<rparr>)
      | Some e \<Rightarrow> (record_of E p ro (initial_report p en) (w0\<lparr>last_vba_size := 0\<rparr>))
                   \<lparr>r_message := MsgException e\<rparr>)"
  using assms
  by (auto simp: clean_vba_macro_route settle_def conclude_def finish_closed handler_def
      save_report_closed first_record_def nth_append split: option.splits)

text \<open>
  The history gains one record, or the same record twice when the first \<open>_save_report\<close>
  of the call raised.
\<close>

lemma call_history:
  assumes "clean_vba_macro E p ro gen en w0 = (res, w')"
  shows "\<exists>rd k. report_history w' = report_history w0 @ replicate k rd \<and> (k = 1 \<or> k = 2 \<and> gen)"
proof -
  let ?r = "route_of E p ro (files w0)"
  let ?rd = "record_of E p ro (initial_report p en) (w0\<lparr>last_vba_size := 0\<rparr>)"
  let ?h = "report_history w0"
  show ?thesis
  proof (cases "raised ?r")
    case (Some e)
    with assms have "report_history w' = ?h @ replicate 1 (?rd\<lparr>r_message := MsgException e\<rparr>)"
      by (auto simp: clean_vba_macro_route settle_def conclude_def handler_def save_report_closed
          split: option.splits)
    then show ?thesis by blast
  next
    case None
    note nr = None
    show ?thesis
    proof (cases "report_error E gen (?h @ [?rd])")
      case None
      with assms nr have "report_history w' = ?h @ replicate 1 ?rd"
        by (auto simp: clean_vba_macro_route settle_def conclude_def finish_closed)
      then show ?thesis by blast
    next
      case (Some e)
      with assms nr
      have "report_history w' = ?h @ replicate 2 (?rd\<lparr>r_message := MsgException e\<rparr>)"
        by (auto simp: clean_vba_macro_route settle_def conclude_def finish_closed handler_def
            save_report_closed numeral_2_eq_2 split: option.splits)
      moreover have gen using report_error_gen [OF Some] by simp
      ultimately show ?thesis by blast
    qed
  qed
qed

lemma call_last_vba_size:
  assumes "clean_vba_macro E p ro gen en w0 = (res, w')"
  shows "last_vba_size w' = size_of E p ro (w0\<lparr>last_vba_size := 0\<rparr>)"
  using assms
  by (auto simp: clean_vba_macro_route settle_def conclude_def finish_closed handler_def
      save_report_closed split: option.splits)

lemma replay_reports_other:
  "list_all is_report_write reps \<Longrightarrow> suffix_of q \<noteq> ''.html'' \<Longrightarrow> replay f reps q = f q"
proof (induction reps arbitrary: f)
  case Nil
  show ?case by simp
next
  case (Cons ev reps)
  then show ?case by (cases ev) (auto simp: is_report_write_def)
qed

lemma not_html:
  "lower (suffix_of p) \<in> set SUPPORTED_EXTS \<union> set NO_MACRO_EXTS \<Longrightarrow> suffix_of p \<noteq> ''.html''"
  using lower_html by (auto simp: SUPPORTED_EXTS_def NO_MACRO_EXTS_def)


lemma name_of_no_slash: "CHR ''/'' \<notin> set (name_of p)"
proof
  assume "CHR ''/'' \<in> set (name_of p)"
  then have "CHR ''/'' \<in> set (takeWhile (\<lambda>c. c \<noteq> CHR ''/'') (rev p))"
    by (simp add: name_of_def)
  then show False by (auto dest: set_takeWhileD)
qed

lemma name_of_parent_prefix: "name_of (parent_prefix p) = []"
proof -
  let ?d = "dropWhile (\<lambda>c. c \<noteq> CHR ''/'') (rev p)"
  have "takeWhile (\<lambda>c. c \<noteq> CHR ''/'') ?d = []"
  proof (cases ?d)
    case Nil
    show ?thesis by (simp only: Nil takeWhile.simps)
  next
    case (Cons a as)
    then have "?d \<noteq> []" by simp
    then have "\<not> (hd ?d \<noteq> CHR ''/'')" by (rule hd_dropWhile)
    with Cons show ?thesis by simp
  qed
  then show ?thesis by (simp add: name_of_def parent_prefix_def)
qed

lemma name_of_backup: "name_of (backup_path_of p) = stem_of p @ ''_backup'' @ suffix_of p"
proof -
  have "set (stem_of p @ suffix_of p) = set (name_of p)" by (simp only: stem_suffix)
  then have "CHR ''/'' \<notin> set (stem_of p) \<and> CHR ''/'' \<notin> set (suffix_of p)"
    using name_of_no_slash [of p] by auto
  then have "CHR ''/'' \<notin> set (stem_of p @ ''_backup'' @ suffix_of p)" by simp
  then have "name_of (parent_prefix p @ (stem_of p @ ''_backup'' @ suffix_of p))
      = name_of (parent_prefix p) @ (stem_of p @ ''_backup'' @ suffix_of p)"
    by (rule name_of_append)
  then show ?thesis by (simp add: backup_path_of_def name_of_parent_prefix)
qed

lemma suffix_of_backup:
  assumes "suffix_of p \<noteq> []"
  shows "suffix_of (backup_path_of p) = suffix_of p"
proof -
  define e where "e = rev (takeWhile (\<lambda>c. c \<noteq> CHR ''.'') (rev (name_of p)))"
  from assms have s: "suffix_of p = CHR ''.'' # e" and ne: "e \<noteq> []"
    by (auto simp: suffix_of_def Let_def e_def split: if_splits)
  have nodot: "\<And>c. c \<in> set (rev e) \<Longrightarrow> c \<noteq> CHR ''.''"
    unfolding e_def by (auto dest: set_takeWhileD)
  define n where "n = stem_of p @ ''_backup'' @ CHR ''.'' # e"
  have nb: "name_of (backup_path_of p) = n" using name_of_backup [of p] s by (simp add: n_def)
  have "rev n = rev e @ CHR ''.'' # rev (stem_of p @ ''_backup'')" by (simp add: n_def)
  moreover have "takeWhile (\<lambda>c. c \<noteq> CHR ''.'') (rev e @ CHR ''.'' # rev (stem_of p @ ''_backup'')) = rev e"
    using nodot by (simp add: takeWhile_tail takeWhile_eq_all_conv)
  ultimately have t: "takeWhile (\<lambda>c. c \<noteq> CHR ''.'') (rev n) = rev e" by simp
  have dot: "CHR ''.'' \<in> set n" by (simp add: n_def)
  have len: "length e + 1 < length n" by (simp add: n_def)
  have "suffix_of (backup_path_of p) = CHR ''.'' # e"
    using len by (simp add: suffix_of_def nb t dot ne Let_def)
  with s show ?thesis by simp
qed

lemma backup_not_html:
  assumes "lower (suffix_of p) \<in> set SUPPORTED_EXTS"
  shows "suffix_of (backup_path_of p) \<noteq> ''.html''"
proof -
  have "lower (suffix_of p) \<noteq> []" using assms by (auto simp: SUPPORTED_EXTS_def)
  then have "suffix_of p \<noteq> []" by (auto simp: lower_def)
  then have "suffix_of (backup_path_of p) = suffix_of p" by (rule suffix_of_backup)
  moreover have "suffix_of p \<noteq> ''.html''" using assms by (intro not_html) simp
  ultimately show ?thesis by simp
qed

section \<open>Properties of the manifest sanitizer\<close>

lemma collapse_blank_head:
  "collapse_blank (c # cs) \<noteq> [] \<and> hd (collapse_blank (c # cs)) = c"
  by simp

lemma collapse_blank_pass:
  "10 \<notin> set pre \<Longrightarrow> collapse_blank (pre @ s) = pre @ collapse_blank s"
  by (induction pre) auto

lemma takeWhile_space_collapse_nonspace:
  assumes "s = [] \<or> \<not> is_space (hd s)"
  shows "takeWhile is_space (collapse_blank s) = []"
proof (cases s)
  case Nil then show ?thesis by simp
next
  case (Cons c cs)
  with assms have "\<not> is_space c" by simp
  with Cons show ?thesis by (auto simp: is_space_def)
qed

lemma leading_nl_collapse:
  "10 \<in> set (takeWhile is_space (collapse_blank s)) \<Longrightarrow> 10 \<in> set (takeWhile is_space s)"
proof (induction s rule: collapse_blank.induct)
  case 1
  then show ?case by simp
next
  case (2 c cs)
  show ?case
  proof (cases "c = 10 \<and> 10 \<in> set (takeWhile is_space cs)")
    case True
    then show ?thesis by (simp add: is_space_def)
  next
    case False
    with 2 show ?thesis by (auto split: if_splits)
  qed
qed

lemma no_blank_fix: "no_blank s \<Longrightarrow> collapse_blank s = s"
  by (induction s) auto

lemma after_last_nl_no_nl: "10 \<notin> set (after_last_nl r)"
  unfolding after_last_nl_def using set_takeWhileD[of 10 "\<lambda>c. c \<noteq> 10" "rev r"] by auto

lemma after_last_nl_spaces: "\<forall>x\<in>set r. is_space x \<Longrightarrow> \<forall>x\<in>set (after_last_nl r). is_space x"
  unfolding after_last_nl_def by (auto dest: set_takeWhileD)

lemma dropWhile_head: "dropWhile P s = [] \<or> \<not> P (hd (dropWhile P s))"
  by (metis hd_dropWhile)

lemma collapse_blank_no_blank: "no_blank (collapse_blank s)"
proof (induction s rule: collapse_blank.induct)
  case 1
  then show ?case by simp
next
  case (2 c cs)
  show ?case
  proof (cases "c = 10 \<and> 10 \<in> set (takeWhile is_space cs)")
    case True
    let ?tail = "after_last_nl (takeWhile is_space cs)"
    let ?rest = "dropWhile is_space cs"
    have t1: "10 \<notin> set ?tail" by (rule after_last_nl_no_nl)
    have t2: "\<forall>x\<in>set ?tail. is_space x"
      by (rule after_last_nl_spaces) (auto dest: set_takeWhileD)
    have eq: "collapse_blank (?tail @ ?rest) = ?tail @ collapse_blank ?rest"
      using t1 by (rule collapse_blank_pass)
    have "takeWhile is_space (?tail @ collapse_blank ?rest) = ?tail"
      using t2 takeWhile_space_collapse_nonspace[OF dropWhile_head[of is_space cs]]
      by (simp add: takeWhile_append2)
    with t1 eq have "10 \<notin> set (takeWhile is_space (collapse_blank (?tail @ ?rest)))" by simp
    moreover have "no_blank (collapse_blank (?tail @ ?rest))" using 2(1) True by simp
    ultimately show ?thesis using True by simp
  next
    case False
    then have "no_blank (collapse_blank cs)" using 2(2) by auto
    moreover have "\<not> (c = 10 \<and> 10 \<in> set (takeWhile is_space (collapse_blank cs)))"
      using False leading_nl_collapse by blast
    ultimately show ?thesis using False by auto
  qed
qed

lemma collapse_blank_idem: "collapse_blank (collapse_blank s) = collapse_blank s"
  by (rule no_blank_fix) (rule collapse_blank_no_blank)

lemma collapse_blank_length: "length (collapse_blank s) \<le> length s"
proof (induction s rule: collapse_blank.induct)
  case 1 then show ?case by simp
next
  case (2 c cs)
  have "length (after_last_nl (takeWhile is_space cs) @ dropWhile is_space cs) \<le> length cs"
    using after_last_nl_length[of "takeWhile is_space cs"]
    by (metis add_le_mono1 length_append takeWhile_dropWhile_id)
  with 2 show ?case by (auto split: if_splits)
qed

lemma remove_tag_length: "length (remove_tag L s) \<le> length s"
proof (induction L s rule: remove_tag.induct)
  case (1 L) then show ?case by simp
next
  case (2 L c cs)
  show ?case
  proof (cases "prefix L (c # cs)")
    case False with 2 show ?thesis by simp
  next
    case True
    show ?thesis
    proof (cases "find_close (drop (length L) (c # cs))")
      case None with True 2 show ?thesis by simp
    next
      case (Some rest)
      then have "length rest < length (drop (length L) (c # cs))" by (rule find_close_shorter)
      then have "length rest \<le> length (c # cs)" by simp
      moreover have "length (remove_tag L rest) \<le> length rest" by (rule 2(2)[OF True Some])
      ultimately show ?thesis using True Some by simp
    qed
  qed
qed

lemma remove_tag_fix_iff: "remove_tag L s = s \<longleftrightarrow> \<not> has_match L s"
proof (induction L s rule: remove_tag.induct)
  case (1 L) then show ?case by simp
next
  case (2 L c cs)
  show ?case
  proof (cases "prefix L (c # cs)")
    case False with 2 show ?thesis by simp
  next
    case True
    show ?thesis
    proof (cases "find_close (drop (length L) (c # cs))")
      case None with True 2 show ?thesis by simp
    next
      case (Some rest)
      then have "length rest < length (drop (length L) (c # cs))" by (rule find_close_shorter)
      then have "length rest < length (c # cs)" by simp
      moreover have "length (remove_tag L rest) \<le> length rest" by (rule remove_tag_length)
      ultimately have "remove_tag L rest \<noteq> c # cs" by auto
      then show ?thesis using True Some by simp
    qed
  qed
qed


lemma remove_tag_shrinks: "has_match L s \<Longrightarrow> length (remove_tag L s) < length s"
proof (induction L s rule: remove_tag.induct)
  case (1 L)
  then show ?case by simp
next
  case (2 L c cs)
  show ?case
  proof (cases "prefix L (c # cs)")
    case False
    with 2 show ?thesis by simp
  next
    case True
    show ?thesis
    proof (cases "find_close (drop (length L) (c # cs))")
      case None
      with True 2 show ?thesis by simp
    next
      case (Some rest)
      then have "length rest < length (drop (length L) (c # cs))"
        by (rule find_close_shorter)
      then have "length rest < length (c # cs)" by simp
      moreover have "length (remove_tag L rest) \<le> length rest"
        by (rule remove_tag_length)
      ultimately show ?thesis using True Some by simp
    qed
  qed
qed

lemma strip_length: "length (foldl (\<lambda>c p. remove_tag p c) s ps) \<le> length s"
proof (induction ps arbitrary: s)
  case Nil
  show ?case by simp
next
  case (Cons p ps)
  have "length (foldl (\<lambda>c p. remove_tag p c) (remove_tag p s) ps) \<le> length (remove_tag p s)"
    by (rule Cons.IH)
  also have "\<dots> \<le> length s" by (rule remove_tag_length)
  finally show ?case by simp
qed

lemma strip_same_length:
  "length (foldl (\<lambda>c p. remove_tag p c) s ps) = length s \<longleftrightarrow> (\<forall>L\<in>set ps. \<not> has_match L s)"
proof (induction ps arbitrary: s)
  case Nil
  show ?case by simp
next
  case (Cons p ps)
  show ?case
  proof (cases "has_match p s")
    case True
    have "length (foldl (\<lambda>c p. remove_tag p c) (remove_tag p s) ps) \<le> length (remove_tag p s)"
      by (rule strip_length)
    also have "\<dots> < length s" using True by (rule remove_tag_shrinks)
    finally show ?thesis using True by auto
  next
    case False
    then have "remove_tag p s = s" by (simp add: remove_tag_fix_iff)
    with False Cons.IH [of s] show ?thesis by simp
  qed
qed

lemma strip_fix:
  "(\<forall>L\<in>set ps. \<not> has_match L s) \<Longrightarrow> foldl (\<lambda>c p. remove_tag p c) s ps = s"
proof (induction ps arbitrary: s)
  case Nil
  show ?case by simp
next
  case (Cons p ps)
  then have "remove_tag p s = s" by (simp add: remove_tag_fix_iff)
  with Cons show ?case by simp
qed

text \<open>
  Claim C6, as amended. Sanitizing a second time changes nothing exactly when none of the
  four declaration patterns matches in the text that the first sanitization produced; the
  collapse of blank lines by itself is idempotent. \<open>_clean_content_types\<close> leaves the
  working directory as it is when the manifest does not exist.
\<close>

theorem sanitize_idempotent_iff:
  "(sanitize (sanitize c) = sanitize c \<longleftrightarrow> (\<forall>L\<in>set patterns. \<not> has_match L (sanitize c)))
   \<and> (t p = None \<longrightarrow> clean_content_types E p t = t)"
proof (intro conjI iffI impI)
  assume nm: "\<forall>L\<in>set patterns. \<not> has_match L (sanitize c)"
  then have "strip_declarations (sanitize c) = sanitize c"
    unfolding strip_declarations_def by (rule strip_fix)
  then show "sanitize (sanitize c) = sanitize c"
    by (simp add: sanitize_def collapse_blank_idem)
next
  assume idem: "sanitize (sanitize c) = sanitize c"
  have "length (sanitize (sanitize c)) \<le> length (strip_declarations (sanitize c))"
    unfolding sanitize_def [of "collapse_blank (strip_declarations c)"] sanitize_def [of c]
    by (rule collapse_blank_length)
  moreover have "length (strip_declarations (sanitize c)) \<le> length (sanitize c)"
    unfolding strip_declarations_def by (rule strip_length)
  ultimately have "length (strip_declarations (sanitize c)) = length (sanitize c)"
    using idem by simp
  then show "\<forall>L\<in>set patterns. \<not> has_match L (sanitize c)"
    unfolding strip_declarations_def by (simp only: strip_same_length)
next
  assume "t p = None"
  then show "clean_content_types E p t = t" by (simp add: clean_content_types_def)
qed

text \<open>
  The claim as written fails: deleting the inner declaration of \<open>nested_manifest\<close> joins the
  text around it into a new declaration, which only a second run deletes.
\<close>

theorem sanitize_not_idempotent:
  "sanitize (sanitize nested_manifest) \<noteq> sanitize nested_manifest"
  by (simp add: nested_manifest_def sanitize_def strip_declarations_def patterns_def utext_def)

theorem sanitize_idempotent_iff_witness:
  "list_all (\<lambda>L. \<not> has_match L (sanitize demo_manifest)) patterns
   \<and> sanitize (sanitize demo_manifest) = sanitize demo_manifest
   \<and> sanitize demo_manifest = utext ''<Types>\<newline></Types>''
   \<and> Map.empty ''[Content_Types].xml'' = None
   \<and> clean_content_types demo_env ''[Content_Types].xml'' Map.empty = Map.empty"
proof -
  have s: "sanitize demo_manifest = utext ''<Types>\<newline></Types>''"
    by (simp add: demo_manifest_def sanitize_def strip_declarations_def patterns_def utext_def
        is_space_def after_last_nl_def)
  have nm: "\<forall>L\<in>set patterns. \<not> has_match L (sanitize demo_manifest)"
    unfolding s by (simp add: patterns_def utext_def)
  have e: "(Map.empty :: tree) ''[Content_Types].xml'' = None" by simp
  from sanitize_idempotent_iff [of demo_manifest Map.empty "''[Content_Types].xml''" demo_env] nm e s
  show ?thesis by (simp add: list_all_iff)
qed






lemmas eval_defs = clean_vba_macro_def try_block_def strip_and_repack_def finish_def
  save_report_def generate_html_report_def repack_docx_def copy2_def Let_def
  demo_env_def demo_world_def budget_tree_def mixed_tree_def plain_tree_def
  silent_parser_def module_parser_def readonly_cwd_env_def flaky_report_env_def disk_full_env_def
  strict_parser_env_def initial_report_def get_file_meta_def
  detect_doc_type_def suffix_of_def name_of_def lower_def lower_char_def
  SUPPORTED_EXTS_def NO_MACRO_EXTS_def clean_content_types_def regular_files_def
  backup_path_of_def stem_of_def parent_prefix_def report_path_def path_join_def
  extract_vba_code_def extract_vba_from_parser_def VBA_BIN_PATHS_def fallback_events_def
  truthy_def code_text_def new_events_def overwrites_def restamp_def


lemma stripped_tree_removed:
  "stripped_tree E t dt (vba_paths dt) = None
   \<and> stripped_tree E t dt (vba_paths dt @ ''.rels'') = None"
  by (cases dt)
     (auto simp: stripped_tree_def clean_content_types_def Let_def
       split: option.splits node.splits)


text \<open>What a route tells about the input and the environment.\<close>

lemma route_reaches_strip:
  assumes "files w p = Some original"
      and "route_of E p ro (files w) \<in> {NoMacroFound, MacroCleared}
           \<or> (\<exists>s e. route_of E p ro (files w) = Exception s e \<and> s \<noteq> AtMkdtemp \<and> s \<noteq> AtExtract)"
  shows "\<exists>t dt. lower (suffix_of p) \<in> set SUPPORTED_EXTS
           \<and> lower (suffix_of p) \<notin> set NO_MACRO_EXTS
           \<and> mkdtemp_error E = None
           \<and> extractall E original = Extracted t \<and> detect_doc_type t = Some dt
           \<and> route_of E p ro (files w) = strip_route E ro t dt"
  using assms
  by (auto simp: route_of_def split: if_splits option.splits unpacked.splits)

lemma strip_route_cleared:
  "strip_route E ro t dt = MacroCleared \<Longrightarrow>
     repack_result E = RepackOk \<and> (\<exists>m. t (vba_paths dt) = Some (File m))
     \<and> t (vba_paths dt @ ''.rels'') \<noteq> Some Dir \<and> (ro \<longrightarrow> copy2_error E = None)"
  by (auto simp: strip_route_def split: option.splits node.splits if_splits repack_result.splits)

lemma strip_route_aborted:
  "strip_route E ro t dt = Exception (AtRepackWrite left) e \<Longrightarrow>
     repack_result E = RepackWriteFails e left \<and> (\<exists>m. t (vba_paths dt) = Some (File m))"
  by (auto simp: strip_route_def split: option.splits node.splits if_splits repack_result.splits)

lemma strip_route_no_macro:
  "strip_route E ro t dt = NoMacroFound \<longleftrightarrow> t (vba_paths dt) = None"
  by (auto simp: strip_route_def split: option.splits node.splits if_splits repack_result.splits)

lemma events_of_strip:
  assumes "files w p = Some original" and "extractall E original = Extracted t"
      and "detect_doc_type t = Some dt"
  shows "events_of E p ro (files w) = core_events E p ro original t dt (route_of E p ro (files w))"
  using assms by (simp add: events_of_def the_tree_def the_doc_type_def)

lemma replay_backup_input:
  "f p = Some original \<Longrightarrow> replay f (backup_events ro p original) p = Some original"
  using backup_path_neq [of p] by (auto simp: backup_events_def)

text \<open>
  Claim C1, as amended. For an existing input (other than a file named as a report), after
  the call the input path holds the original bytes, or, when \<open>_repack_docx\<close> completed,
  the archive of the working directory without the macro stream and its \<open>.rels\<close> file,
  or, when \<open>_repack_docx\<close> raised after it had opened the output, the bytes that the
  failed write left there; in that last case the call does not return 1 and, with
  \<open>replace_original\<close>, the backup holds the original bytes.
\<close>

theorem input_path_after_call:
  assumes "files w p = Some original"
      and "suffix_of p \<noteq> ''.html''"
      and "clean_vba_macro E p ro gen en w = (res, w')"
  shows "files w' p = Some original
       \<or> (repack_result E = RepackOk
           \<and> (\<exists>t dt. extractall E original = Extracted t \<and> detect_doc_type t = Some dt
                \<and> files w' p = Some (zip_write E (regular_files (stripped_tree E t dt)))
                \<and> stripped_tree E t dt (vba_paths dt) = None
                \<and> stripped_tree E t dt (vba_paths dt @ ''.rels'') = None))
       \<or> (\<exists>e left. repack_result E = RepackWriteFails e left \<and> files w' p = Some left
              \<and> res \<noteq> Inr 1
              \<and> (ro \<longrightarrow> files w' (backup_path_of p) = Some original))"
proof -
  let ?r = "route_of E p ro (files w)"
  from call_log [OF assms(3)] obtain reps where
    fin: "files w' = replay (files w) (events_of E p ro (files w) @ reps)"
    and reps: "list_all is_report_write reps" by blast
  have atp: "files w' p = replay (files w) (events_of E p ro (files w)) p"
    unfolding fin replay_append using reps assms(2) by (rule replay_reports_other)
  show ?thesis
  proof (cases "?r = MacroCleared")
    case True
    with route_reaches_strip [OF assms(1), of E ro] obtain t dt where
      ex: "extractall E original = Extracted t" and dt: "detect_doc_type t = Some dt"
      and sr: "strip_route E ro t dt = MacroCleared" by auto
    from strip_route_cleared [OF sr] have ok: "repack_result E = RepackOk" by simp
    have "events_of E p ro (files w) = backup_events ro p original
        @ [ZipWritten p (zip_write E (regular_files (stripped_tree E t dt)))]"
      using events_of_strip [OF assms(1) ex dt, of ro] True by (simp add: core_events_def)
    with atp have "files w' p = Some (zip_write E (regular_files (stripped_tree E t dt)))"
      by simp
    with ok ex dt stripped_tree_removed [of E t dt] show ?thesis by blast
  next
    case nc: False
    show ?thesis
    proof (cases "\<exists>left e. ?r = Exception (AtRepackWrite left) e")
      case True
      then obtain left e where r: "?r = Exception (AtRepackWrite left) e" by blast
      with route_reaches_strip [OF assms(1), of E ro] obtain t dt where
        sup: "lower (suffix_of p) \<in> set SUPPORTED_EXTS"
        and ex: "extractall E original = Extracted t" and dt: "detect_doc_type t = Some dt"
        and sr: "strip_route E ro t dt = Exception (AtRepackWrite left) e" by auto
      from strip_route_aborted [OF sr] have rf: "repack_result E = RepackWriteFails e left"
        by simp
      have evs: "events_of E p ro (files w) = backup_events ro p original @ [ZipAborted p left]"
        using events_of_strip [OF assms(1) ex dt, of ro] r by (simp add: core_events_def)
      with atp have f: "files w' p = Some left" by simp
      have n1: "res \<noteq> Inr 1" using call_result [OF assms(3)] r by auto
      have bk: "files w' (backup_path_of p) = Some original" if ro
      proof -
        have "files w' (backup_path_of p)
            = replay (files w) (backup_events ro p original @ [ZipAborted p left]) (backup_path_of p)"
          unfolding fin evs replay_append using reps backup_not_html [OF sup]
          by (rule replay_reports_other)
        also have "\<dots> = Some original"
          using that backup_path_neq [of p] by (simp add: backup_events_def)
        finally show ?thesis .
      qed
      from rf f n1 bk show ?thesis by blast
    next
      case False
      with nc have "events_of E p ro (files w) = []
          \<or> events_of E p ro (files w) = backup_events ro p original"
        using assms(1)
        by (auto simp: events_of_def core_events_def split: route.splits step.splits)
      with atp assms(1) replay_backup_input [of "files w" p original ro]
      have "files w' p = Some original" by auto
      then show ?thesis by simp
    qed
  qed
qed

text \<open>
  The claim as written fails: when the disk is full, \<open>_repack_docx\<close> has already truncated
  the input; the call returns 0 and the input path holds neither the original bytes nor
  an archive.
\<close>

theorem repack_failure_corrupts_input:
  "files demo_world ''/docs/budget.xlsm'' = Some ''PK-budget''
   \<and> fst (clean_vba_macro disk_full_env ''/docs/budget.xlsm'' False False False demo_world) = Inr 0
   \<and> files (snd (clean_vba_macro disk_full_env ''/docs/budget.xlsm'' False False False demo_world))
        ''/docs/budget.xlsm'' = Some []
   \<and> (\<forall>fs. zip_write disk_full_env fs \<noteq> [])"
  by (simp add: eval_defs)

theorem input_path_after_call_witness:
  "files demo_world ''/docs/budget.xlsm'' = Some ''PK-budget''
   \<and> suffix_of ''/docs/budget.xlsm'' \<noteq> ''.html''
   \<and> files (snd (clean_vba_macro demo_env ''/docs/budget.xlsm'' True True False demo_world))
        ''/docs/budget.xlsm'' \<noteq> Some ''PK-budget''
   \<and> repack_result demo_env = RepackOk
   \<and> (\<exists>t dt. extractall demo_env ''PK-budget'' = Extracted t \<and> detect_doc_type t = Some dt
        \<and> files (snd (clean_vba_macro demo_env ''/docs/budget.xlsm'' True True False demo_world))
             ''/docs/budget.xlsm'' = Some (zip_write demo_env (regular_files (stripped_tree demo_env t dt)))
        \<and> stripped_tree demo_env t dt (vba_paths dt) = None
        \<and> stripped_tree demo_env t dt (vba_paths dt @ ''.rels'') = None)"
proof -
  let ?p = "''/docs/budget.xlsm''"
  let ?c = "clean_vba_macro demo_env ?p True True False demo_world"
  have f: "files demo_world ?p = Some ''PK-budget''" by (simp add: demo_world_def)
  have s: "suffix_of ?p \<noteq> ''.html''" by (simp add: suffix_of_def name_of_def)
  have c: "?c = (fst ?c, snd ?c)" by simp
  have n: "files (snd ?c) ?p \<noteq> Some ''PK-budget''" by (simp add: eval_defs)
  have ok: "repack_result demo_env = RepackOk" by (simp add: demo_env_def)
  from input_path_after_call [OF f s c] n ok
  have "\<exists>t dt. extractall demo_env ''PK-budget'' = Extracted t \<and> detect_doc_type t = Some dt
        \<and> files (snd ?c) ?p = Some (zip_write demo_env (regular_files (stripped_tree demo_env t dt)))
        \<and> stripped_tree demo_env t dt (vba_paths dt) = None
        \<and> stripped_tree demo_env t dt (vba_paths dt @ ''.rels'') = None"
    by auto
  then show ?thesis by (intro conjI f s n ok)
qed

lemma ext_lists_disjoint: "x \<in> set SUPPORTED_EXTS \<Longrightarrow> x \<notin> set NO_MACRO_EXTS"
  by (auto simp: SUPPORTED_EXTS_def NO_MACRO_EXTS_def)

lemma route_of_strip:
  assumes "files w p = Some original" and "lower (suffix_of p) \<in> set SUPPORTED_EXTS"
      and "mkdtemp_error E = None" and "extractall E original = Extracted t"
      and "detect_doc_type t = Some dt"
  shows "route_of E p ro (files w) = strip_route E ro t dt"
  using assms ext_lists_disjoint [of "lower (suffix_of p)"] by (simp add: route_of_def)







lemma route_file_not_found: "route_of E p ro fs = FileNotFound \<longleftrightarrow> fs p = None"
  using strip_route_cases
  by (auto simp: route_of_def strip_route_def
      split: option.splits unpacked.splits node.splits repack_result.splits if_splits)

lemma record_message_by_route:
  "r_message rd = MsgNone \<Longrightarrow> raised (route_of E p ro (files w)) = None \<Longrightarrow>
   r_message (record_of E p ro rd (w\<lparr>last_vba_size := 0\<rparr>))
     = message_of E p ro w (route_of E p ro (files w))"
  using route_file_not_found [of E p ro "files w"]
  by (cases "files w p"; cases "route_of E p ro (files w)")
     (auto simp: record_of_def message_of_def strip_record_def size_of_def sized_def raised_def
       Let_def)

lemma record_status_by_route:
  "r_status rd = StatusFail \<Longrightarrow>
   r_status (record_of E p ro rd (w\<lparr>last_vba_size := 0\<rparr>)) = status_of (route_of E p ro (files w))"
  using route_file_not_found [of E p ro "files w"]
  by (cases "files w p"; cases "route_of E p ro (files w)")
     (auto simp: record_of_def status_of_def strip_record_def Let_def split: step.splits)

lemma first_record_by_route:
  assumes "clean_vba_macro E p ro gen en w = (res, w')"
  shows "r_message (first_record w w') = message_of E p ro w (route_of E p ro (files w))
       \<and> r_status (first_record w w') = status_of (route_of E p ro (files w))"
proof (cases "raised (route_of E p ro (files w))")
  case None
  then show ?thesis
    unfolding call_first_record [OF assms]
    using record_message_by_route [of "initial_report p en" E p ro w]
      record_status_by_route [of "initial_report p en" E p ro w]
    by (simp add: initial_report_def)
next
  case (Some e)
  then obtain s where "route_of E p ro (files w) = Exception s e"
    by (cases "route_of E p ro (files w)") (simp_all add: raised_def)
  then have m: "message_of E p ro w (route_of E p ro (files w)) = MsgException e"
    by (simp add: message_of_def)
  show ?thesis
    unfolding call_first_record [OF assms]
    using Some m record_status_by_route [of "initial_report p en" E p ro w]
    by (simp add: initial_report_def)
qed

lemma detect_irrelevant:
  "extract_vba_from_parser (parser\<lparr>detect := d\<rparr>) = extract_vba_from_parser parser"
  by (cases parser) (simp add: extract_vba_from_parser_def Let_def split: sum.splits option.splits)

text \<open>
  Claim C2, as amended. With the parser library present, \<open>_extract_vba_code\<close> opens the
  container for the fallback exactly when the whole-document step ends without an
  exception of the parser constructor or of the enumeration of the macros, finds no code,
  and the file exists; an exception of \<open>detect_vba_macros()\<close> is passed over and changes
  nothing. When the constructor or the enumeration raises, the result is the placeholder
  of the outer handler and the fallback is not attempted.
\<close>

theorem fallback_attempted_iff:
  assumes "oletools E"
  shows "(OpenContainer \<in> set (snd (extract_vba_code E fs p)) \<longleftrightarrow>
            (\<exists>parser doc. VBA_Parser E (fs p) = Inr parser
               \<and> extract_vba_from_parser parser = Inr [] \<and> fs p = Some doc))
       \<and> (\<forall>e. VBA_Parser E (fs p) = Inl e \<longrightarrow>
             extract_vba_code E fs p = (ExtractFailed e, [ParseDocument]))
       \<and> (\<forall>parser e. VBA_Parser E (fs p) = Inr parser \<and> extract_vba_from_parser parser = Inl e \<longrightarrow>
             extract_vba_code E fs p = (ExtractFailed e, [ParseDocument]))
       \<and> (\<forall>parser d. extract_vba_from_parser (parser\<lparr>detect := d\<rparr>) = extract_vba_from_parser parser)
       \<and> (ParseTempBin \<in> set (snd (extract_vba_code E fs p)) \<longleftrightarrow>
            (\<exists>parser doc zf name bin. VBA_Parser E (fs p) = Inr parser
               \<and> extract_vba_from_parser parser = Inr [] \<and> fs p = Some doc
               \<and> zip_open E doc = Some zf
               \<and> find (\<lambda>n. n \<in> set (namelist zf)) VBA_BIN_PATHS = Some name
               \<and> mkstemp_error E = None \<and> zread zf name = Inr bin))"
proof (intro conjI allI impI)
  show "OpenContainer \<in> set (snd (extract_vba_code E fs p)) \<longleftrightarrow>
            (\<exists>parser doc. VBA_Parser E (fs p) = Inr parser
               \<and> extract_vba_from_parser parser = Inr [] \<and> fs p = Some doc)"
    using assms
    by (auto simp: extract_vba_code_def fallback_events_def
        split: sum.splits list.splits option.splits)
next
  fix e assume "VBA_Parser E (fs p) = Inl e"
  then show "extract_vba_code E fs p = (ExtractFailed e, [ParseDocument])"
    using assms by (simp add: extract_vba_code_def)
next
  fix parser e
  assume "VBA_Parser E (fs p) = Inr parser \<and> extract_vba_from_parser parser = Inl e"
  then show "extract_vba_code E fs p = (ExtractFailed e, [ParseDocument])"
    using assms by (simp add: extract_vba_code_def)
next
  fix parser :: vba_parser and d
  show "extract_vba_from_parser (parser\<lparr>detect := d\<rparr>) = extract_vba_from_parser parser"
    by (rule detect_irrelevant)
next
  show "ParseTempBin \<in> set (snd (extract_vba_code E fs p)) \<longleftrightarrow>
            (\<exists>parser doc zf name bin. VBA_Parser E (fs p) = Inr parser
               \<and> extract_vba_from_parser parser = Inr [] \<and> fs p = Some doc
               \<and> zip_open E doc = Some zf
               \<and> find (\<lambda>n. n \<in> set (namelist zf)) VBA_BIN_PATHS = Some name
               \<and> mkstemp_error E = None \<and> zread zf name = Inr bin)"
    using assms
    by (auto simp: extract_vba_code_def fallback_events_def
        split: sum.splits list.splits option.splits)
qed

text \<open>
  The claim as written fails: the constructor of the parser raises on the document, the
  container holds \<open>xl/vbaProject.bin\<close>, and the function returns the placeholder of the
  outer handler without opening the container.
\<close>

theorem no_fallback_after_parser_exception:
  "VBA_Parser strict_parser_env (files demo_world ''/docs/budget.xlsm'') = Inl ''FileOpenError''
   \<and> (\<exists>zf. zip_open strict_parser_env ''PK-budget'' = Some zf
          \<and> ''xl/vbaProject.bin'' \<in> set (namelist zf))
   \<and> extract_vba_code strict_parser_env (files demo_world) ''/docs/budget.xlsm''
        = (ExtractFailed ''FileOpenError'', [ParseDocument])
   \<and> OpenContainer \<notin> set (snd (extract_vba_code strict_parser_env (files demo_world)
                                  ''/docs/budget.xlsm''))"
  by (simp add: eval_defs)

theorem fallback_attempted_iff_witness:
  "oletools demo_env
   \<and> VBA_Parser demo_env (files demo_world ''/docs/budget.xlsm'') = Inr silent_parser
   \<and> detect silent_parser = Some True
   \<and> extract_vba_from_parser silent_parser = Inr []
   \<and> files demo_world ''/docs/budget.xlsm'' = Some ''PK-budget''
   \<and> OpenContainer \<in> set (snd (extract_vba_code demo_env (files demo_world) ''/docs/budget.xlsm''))
   \<and> extract_vba_code demo_env (files demo_world) ''/docs/budget.xlsm''
        = (Source ''Sub Auto_Open()'',
           [ParseDocument, OpenContainer, CreateTempBin, WriteTempBin ''MACRO'', ParseTempBin,
            UnlinkTempBin])"
proof -
  let ?p = "''/docs/budget.xlsm''"
  have o: "oletools demo_env" by (simp add: demo_env_def)
  have v: "VBA_Parser demo_env (files demo_world ?p) = Inr silent_parser"
    by (simp add: demo_env_def demo_world_def)
  have d: "detect silent_parser = Some True" by (simp add: silent_parser_def)
  have x: "extract_vba_from_parser silent_parser = Inr []"
    by (simp add: silent_parser_def extract_vba_from_parser_def)
  have f: "files demo_world ?p = Some ''PK-budget''" by (simp add: demo_world_def)
  from fallback_attempted_iff [OF o, of "files demo_world" ?p] v x f
  have a: "OpenContainer \<in> set (snd (extract_vba_code demo_env (files demo_world) ?p))"
    by blast
  have r: "extract_vba_code demo_env (files demo_world) ?p
        = (Source ''Sub Auto_Open()'',
           [ParseDocument, OpenContainer, CreateTempBin, WriteTempBin ''MACRO'', ParseTempBin,
            UnlinkTempBin])"
    by (simp add: eval_defs)
  show ?thesis by (intro conjI o v d x f a r)
qed



lemma route_by_extension:
  assumes "files w p = Some original"
  shows "(route_of E p ro (files w) = NoMacroByFormat \<longleftrightarrow> lower (suffix_of p) \<in> set NO_MACRO_EXTS)
       \<and> (route_of E p ro (files w) = UnsupportedFormat \<longleftrightarrow>
            lower (suffix_of p) \<notin> set NO_MACRO_EXTS \<and> lower (suffix_of p) \<notin> set SUPPORTED_EXTS)"
  using assms strip_route_cases
  by (auto simp: route_of_def strip_route_def
      split: option.splits unpacked.splits node.splits repack_result.splits if_splits)






text \<open>
  What holds of the return value for every call: 1 exactly on the route \<open>MacroCleared\<close>
  when the report of that route could be saved; an exception leaves the call only when a
  report was requested and the report writer raised; without a request for a report the
  call returns 1 on \<open>MacroCleared\<close> and 0 on every other route.
\<close>

lemma return_value_by_route:
  assumes "clean_vba_macro E p ro gen en w = (res, w')"
  shows "(res = Inr 1 \<longrightarrow> route_of E p ro (files w) = MacroCleared)
       \<and> (res = Inr 0 \<or> res = Inr 1 \<or> (\<exists>e h. res = Inl e \<and> gen \<and> render_report E h = Inl e))
       \<and> (\<not> gen \<or> (\<forall>h e. render_report E h \<noteq> Inl e) \<longrightarrow>
             res = Inr (returned (route_of E p ro (files w))))"
proof -
  let ?r = "route_of E p ro (files w)"
  let ?h = "report_history w @ [record_of E p ro (initial_report p en) (w\<lparr>last_vba_size := 0\<rparr>)]"
  have a: "res = Inr 1 \<longleftrightarrow> ?r = MacroCleared \<and> report_error E gen ?h = None"
    using call_result [OF assms] by blast
  have b: "res = Inr 0 \<or> res = Inr 1 \<or> (\<exists>e h. res = Inl e \<and> gen \<and> render_report E h = Inl e)"
    using call_result [OF assms] by blast
  have c: "\<not> gen \<longrightarrow> res = Inr (returned ?r)"
    using call_result [OF assms] by blast
  have d: "res = Inr (returned ?r)" if n: "\<forall>h e. render_report E h \<noteq> Inl e"
  proof -
    have ne: "report_error E gen h = None" for h
      using n by (auto simp: report_error_def split: sum.splits)
    from b n have "res = Inr 0 \<or> res = Inr 1" by auto
    moreover have "res = Inr 1 \<longleftrightarrow> ?r = MacroCleared" using a ne by simp
    ultimately show ?thesis by (cases ?r) (auto simp: returned_def)
  qed
  from a b c d show ?thesis by blast
qed

text \<open>
  The routes without a macro stream leave every file of the user as it was, apart from
  the report file.
\<close>

lemma absent_stream_frame:
  assumes "files w p = Some original"
      and "lower (suffix_of p) \<in> set NO_MACRO_EXTS
           \<or> (lower (suffix_of p) \<in> set SUPPORTED_EXTS \<and> mkdtemp_error E = None
               \<and> extractall E original = Extracted t \<and> detect_doc_type t = Some dt
               \<and> t (vba_paths dt) = None)"
      and "clean_vba_macro E p ro gen en w = (res, w')"
  shows "files w' p = Some original
       \<and> list_all is_report_write (new_events w w')
       \<and> res \<noteq> Inr 1
       \<and> r_status (first_record w w') = StatusSuccess
       \<and> \<not> r_vba_found (first_record w w')
       \<and> (\<not> gen \<or> (\<forall>h e. render_report E h \<noteq> Inl e) \<longrightarrow> res = Inr 0)"
proof -
  let ?r = "route_of E p ro (files w)"
  have r: "?r = NoMacroByFormat \<or> ?r = NoMacroFound"
  proof (cases "lower (suffix_of p) \<in> set NO_MACRO_EXTS")
    case True
    then show ?thesis using route_by_extension [OF assms(1), of E ro] by simp
  next
    case False
    with assms(2) have sup: "lower (suffix_of p) \<in> set SUPPORTED_EXTS"
      and mk: "mkdtemp_error E = None" and ex: "extractall E original = Extracted t"
      and dt: "detect_doc_type t = Some dt" and nv: "t (vba_paths dt) = None"
      by blast+
    have "?r = strip_route E ro t dt"
      using assms(1) sup mk ex dt by (rule route_of_strip)
    moreover have "strip_route E ro t dt = NoMacroFound"
      using nv by (simp add: strip_route_no_macro)
    ultimately show ?thesis by simp
  qed
  have nh: "suffix_of p \<noteq> ''.html''"
    using assms(2) by (intro not_html) auto
  from call_log [OF assms(3)] obtain reps where
    log: "fs_log w' = fs_log w @ events_of E p ro (files w) @ reps"
    and fin: "files w' = replay (files w) (events_of E p ro (files w) @ reps)"
    and reps: "list_all is_report_write reps" by blast
  have ev: "events_of E p ro (files w) = []"
    using r assms(1) by (auto simp: events_of_def core_events_def)
  have c1: "files w' p = Some original"
    unfolding fin ev using replay_reports_other [OF reps nh, of "files w"] assms(1) by simp
  have c2: "list_all is_report_write (new_events w w')"
    using log ev reps by simp
  have c3: "res \<noteq> Inr 1" using return_value_by_route [OF assms(3)] r by auto
  have c4: "r_status (first_record w w') = StatusSuccess"
    using first_record_by_route [OF assms(3)] r by (auto simp: status_of_def)
  have nf: "\<not> r_vba_found (record_of E p ro (initial_report p en) (w\<lparr>last_vba_size := 0\<rparr>))"
    using r assms(1)
    by (auto simp: record_of_def strip_record_def initial_report_def Let_def)
  have c5: "\<not> r_vba_found (first_record w w')"
    unfolding call_first_record [OF assms(3)] using nf r by (auto simp: raised_def)
  have c6: "\<not> gen \<or> (\<forall>h e. render_report E h \<noteq> Inl e) \<longrightarrow> res = Inr 0"
    using return_value_by_route [OF assms(3)] r by (auto simp: returned_def)
  show ?thesis by (intro conjI c1 c2 c3 c4 c5 c6)
qed

text \<open>
  Every route other than the three successes is recorded with the status of a failure,
  and no exception leaves a call that was not asked for a report.
\<close>

lemma failures_are_recorded:
  assumes "clean_vba_macro E p ro gen en w = (res, w')"
      and "route_of E p ro (files w) \<notin> {NoMacroByFormat, NoMacroFound, MacroCleared}"
  shows "r_status (first_record w w') = StatusFail \<and> res \<noteq> Inr 1
       \<and> (\<not> gen \<or> (\<forall>h e. render_report E h \<noteq> Inl e) \<longrightarrow> res = Inr 0)"
proof -
  have "status_of (route_of E p ro (files w)) = StatusFail"
    using assms(2) by (cases "route_of E p ro (files w)") (auto simp: status_of_def)
  moreover have "returned (route_of E p ro (files w)) = 0"
    using assms(2) by (cases "route_of E p ro (files w)") (auto simp: returned_def)
  ultimately show ?thesis
    using first_record_by_route [OF assms(1)] return_value_by_route [OF assms(1)] assms(2)
    by auto
qed

text \<open>
  Claim C7 fails on the code. The path does not exist, a report is requested, and the
  report file cannot be written: \<open>_save_report\<close> raises inside the \<open>try\<close> block, the
  \<open>except\<close> block calls \<open>_save_report\<close> again, which raises again, and this exception
  leaves \<open>clean_vba_macro\<close>. The history holds the record of the one file twice.
\<close>

theorem exception_leaves_call:
  "files demo_world ''/docs/missing.xlsm'' = None
   \<and> fst (clean_vba_macro readonly_cwd_env ''/docs/missing.xlsm'' False True False demo_world)
       = Inl ''PermissionError''
   \<and> map r_message
         (report_history
            (snd (clean_vba_macro readonly_cwd_env ''/docs/missing.xlsm'' False True False demo_world)))
       = [MsgException ''PermissionError'', MsgException ''PermissionError'']"
  by (simp add: eval_defs)

text \<open>
  Claim C3 fails on the code in its last part. The two files have no macro stream (one by
  its extension, one a macro-capable container without \<open>vbaProject.bin\<close>); they stay as
  they are, but with a report requested and the report file not writable the call does
  not return 0: the exception of the report writer leaves it.
\<close>

theorem no_macro_call_raises:
  "files demo_world ''/docs/invoice.xlsx'' = Some ''PK-plain''
   \<and> lower (suffix_of ''/docs/invoice.xlsx'') \<in> set NO_MACRO_EXTS
   \<and> fst (clean_vba_macro readonly_cwd_env ''/docs/invoice.xlsx'' False True False demo_world)
       = Inl ''PermissionError''
   \<and> files demo_world ''/docs/report.xlsm'' = Some ''PK-plain''
   \<and> lower (suffix_of ''/docs/report.xlsm'') \<in> set SUPPORTED_EXTS
   \<and> extractall readonly_cwd_env ''PK-plain'' = Extracted plain_tree
   \<and> plain_tree ''xl/vbaProject.bin'' = None
   \<and> fst (clean_vba_macro readonly_cwd_env ''/docs/report.xlsm'' False True False demo_world)
       = Inl ''PermissionError''
   \<and> files (snd (clean_vba_macro readonly_cwd_env ''/docs/report.xlsm'' False True False demo_world))
        ''/docs/report.xlsm'' = Some ''PK-plain''"
  by (simp add: eval_defs)

text \<open>
  Claim C5 fails on the code. The macro stream is found and removed and the repacked
  output exists, yet the call does not return 1: it raises when the report file cannot be
  written at all, and it returns 0 when only the first write of the report fails.
\<close>

theorem cleared_call_does_not_return_one:
  "fst (clean_vba_macro readonly_cwd_env ''/docs/budget.xlsm'' False True False demo_world)
       = Inl ''PermissionError''
   \<and> files (snd (clean_vba_macro readonly_cwd_env ''/docs/budget.xlsm'' False True False demo_world))
        ''/docs/budget.xlsm'' = Some ''PK-repacked''
   \<and> fst (clean_vba_macro flaky_report_env ''/docs/budget.xlsm'' False True False demo_world)
       = Inr 0
   \<and> files (snd (clean_vba_macro flaky_report_env ''/docs/budget.xlsm'' False True False demo_world))
        ''/docs/budget.xlsm'' = Some ''PK-repacked''
   \<and> map r_status
         (report_history
            (snd (clean_vba_macro flaky_report_env ''/docs/budget.xlsm'' False True False demo_world)))
       = [StatusSuccess, StatusSuccess]
   \<and> fst (clean_vba_macro demo_env ''/docs/budget.xlsm'' False True False demo_world) = Inr 1"
  by (simp add: eval_defs)

text \<open>
  Claim C8 fails on the code in the return value. The extensions are classified as the
  claim says, but with a report requested and the report file not writable the call on
  a file of an unsupported extension, and the call on a file of a format without macros,
  raise instead of returning 0.
\<close>

theorem classified_call_raises:
  "files demo_world ''/docs/notes.md'' = Some ''# notes''
   \<and> lower (suffix_of ''/docs/notes.md'') \<notin> set NO_MACRO_EXTS
   \<and> lower (suffix_of ''/docs/notes.md'') \<notin> set SUPPORTED_EXTS
   \<and> fst (clean_vba_macro readonly_cwd_env ''/docs/notes.md'' False True False demo_world)
       = Inl ''PermissionError''
   \<and> r_message (first_record demo_world
        (snd (clean_vba_macro readonly_cwd_env ''/docs/notes.md'' False True False demo_world)))
       = MsgUnsupportedFormat ''.md''
   \<and> files demo_world ''/docs/INVOICE.XLSX'' = Some ''PK-plain''
   \<and> lower (suffix_of ''/docs/INVOICE.XLSX'') \<in> set NO_MACRO_EXTS
   \<and> fst (clean_vba_macro readonly_cwd_env ''/docs/INVOICE.XLSX'' False True False demo_world)
       = Inl ''PermissionError''"
  by (simp add: eval_defs first_record_def)

end
